theory Spec2Isabelle
  imports Main "HOL-Library.AList" "HOL-Library.Sublist"
begin

section \<open>JavaScript values\<close>

text \<open>
  The backup service handles records as plain JavaScript objects: it copies them with
  rest and spread syntax, reads a few named fields and hands them to the MongoDB driver
  or to \<^verbatim>\<open>JSON.stringify\<close>. The declarations of the record types
  (\<^verbatim>\<open>@/models/*\<close>) are not part of the sources, and at run time a snapshot read
  back from a file is whatever \<^verbatim>\<open>JSON.parse\<close> returned. A record is therefore an
  object: a list of named fields in insertion order, whose values are JavaScript values.

  Numbers are the integers (the counts of the service); floating point is not modelled.
  A \<^verbatim>\<open>Date\<close> is a valid date, identified with its ISO-8601 rendering; an
  \<^verbatim>\<open>ObjectId\<close> is identified with the number its twelve bytes denote.
\<close>

type_synonym objectId = nat

datatype jsvalue =
    JUndefined
  | JNull
  | JBool bool
  | JNum int
  | JStr string
  | JDate string
  | JObjectId objectId
  | JArr "jsvalue list"
  | JObj "(string \<times> jsvalue) list"

type_synonym doc = "(string \<times> jsvalue) list"

datatype error =
    Error string
  | TypeError string
  | BSONError string
  | MongoError string

fun message :: "error \<Rightarrow> string" where
  "message (Error m) = m"
| "message (TypeError m) = m"
| "message (BSONError m) = m"
| "message (MongoError m) = m"

text \<open>Truthiness, \<^verbatim>\<open>a || b\<close>, and reading a property of an object.\<close>

fun truthy :: "jsvalue \<Rightarrow> bool" where
  "truthy JUndefined = False"
| "truthy JNull = False"
| "truthy (JBool b) = b"
| "truthy (JNum n) = (n \<noteq> 0)"
| "truthy (JStr s) = (s \<noteq> [])"
| "truthy (JDate d) = True"
| "truthy (JObjectId i) = True"
| "truthy (JArr xs) = True"
| "truthy (JObj al) = True"

fun nullish :: "jsvalue \<Rightarrow> bool" where
  "nullish JUndefined = True"
| "nullish JNull = True"
| "nullish v = False"

definition js_or :: "jsvalue \<Rightarrow> jsvalue \<Rightarrow> jsvalue" where
  "js_or a b = (if truthy a then a else b)"

definition getField :: "doc \<Rightarrow> string \<Rightarrow> jsvalue" where
  "getField d k = (case map_of d k of None \<Rightarrow> JUndefined | Some v \<Rightarrow> v)"

text \<open>
  \<^verbatim>\<open>const { k1, k2, ...rest } = obj\<close>: the rest object holds the fields of
  \<^verbatim>\<open>obj\<close> other than the named ones, in their order.
  \<^verbatim>\<open>{ ...obj, k: v }\<close> is \<^const>\<open>AList.update\<close>: an existing field keeps its
  place and takes the new value, a new field goes to the end.
\<close>

definition omit :: "string list \<Rightarrow> doc \<Rightarrow> doc" where
  "omit ks d = filter (\<lambda>kv. fst kv \<notin> set ks) d"

text \<open>
  Strings. A string is a list of characters with codes below 256, the first 256 code
  units of a JavaScript string. \<^verbatim>\<open>toLowerCase\<close> maps the capital letters among
  them (\<^verbatim>\<open>A\<close> to \<^verbatim>\<open>Z\<close>, and the codes 192 to 222 but for the
  multiplication sign 215) to the letter 32 codes further on, and leaves every other
  character.
\<close>

definition lowerChar :: "char \<Rightarrow> char" where
  "lowerChar c =
     (let n = (of_char c :: nat) in
      if (65 \<le> n \<and> n \<le> 90) \<or> (192 \<le> n \<and> n \<le> 222 \<and> n \<noteq> 215)
      then char_of (n + 32) else c)"

definition toLowerCase :: "string \<Rightarrow> string" where
  "toLowerCase s = map lowerChar s"

definition hexDigit :: "nat \<Rightarrow> char" where
  "hexDigit d = ''0123456789abcdef'' ! (d mod 16)"

fun toHex :: "nat \<Rightarrow> nat \<Rightarrow> string" where
  "toHex 0 n = []"
| "toHex (Suc k) n = toHex k (n div 16) @ [hexDigit n]"

definition toHexString :: "objectId \<Rightarrow> string" where
  "toHexString i = toHex 24 i"

definition hexValue :: "char \<Rightarrow> nat option" where
  "hexValue c =
     (let n = (of_char c :: nat) in
      if 48 \<le> n \<and> n \<le> 57 then Some (n - 48)
      else if 97 \<le> n \<and> n \<le> 102 then Some (n - 87)
      else if 65 \<le> n \<and> n \<le> 70 then Some (n - 55)
      else None)"

fun fromHex :: "nat \<Rightarrow> string \<Rightarrow> nat option" where
  "fromHex acc [] = Some acc"
| "fromHex acc (c # cs) =
     (case hexValue c of None \<Rightarrow> None | Some d \<Rightarrow> fromHex (16 * acc + d) cs)"

text \<open>
  \<^verbatim>\<open>new ObjectId(s)\<close> for a string \<^verbatim>\<open>s\<close>: 24 hexadecimal digits give the
  identifier, in either case of the letters; every other string is rejected.
\<close>

definition newObjectIdFrom :: "string \<Rightarrow> error + objectId" where
  "newObjectIdFrom s =
     (if length s = 24 then
        (case fromHex 0 s of
           None \<Rightarrow> Inl (BSONError ''input must be a 24 character hex string'')
         | Some i \<Rightarrow> Inr i)
      else Inl (BSONError ''input must be a 24 character hex string''))"

fun showNat :: "nat \<Rightarrow> string" where
  "showNat n =
     (if n < 10 then [hexDigit n] else showNat (n div 10) @ [hexDigit (n mod 10)])"

declare showNat.simps [simp del]

definition showInt :: "int \<Rightarrow> string" where
  "showInt i = (if i < 0 then CHR ''-'' # showNat (nat (- i)) else showNat (nat i))"

fun joinWith :: "string \<Rightarrow> string list \<Rightarrow> string" where
  "joinWith sep [] = []"
| "joinWith sep [s] = s"
| "joinWith sep (s # t # ts) = s @ sep @ joinWith sep (t # ts)"

text \<open>
  \<^verbatim>\<open>v.toString()\<close> for a value that is neither \<^verbatim>\<open>undefined\<close> nor
  \<^verbatim>\<open>null\<close> (the callers test that first). The text of a \<^verbatim>\<open>Date\<close> is left to
  the implementation by ECMAScript; the model writes its ISO form.
\<close>

fun js_toString :: "jsvalue \<Rightarrow> string" where
  "js_toString JUndefined = ''undefined''"
| "js_toString JNull = ''null''"
| "js_toString (JBool b) = (if b then ''true'' else ''false'')"
| "js_toString (JNum n) = showInt n"
| "js_toString (JStr s) = s"
| "js_toString (JDate d) = d"
| "js_toString (JObjectId i) = toHexString i"
| "js_toString (JArr xs) =
     joinWith '','' (map (\<lambda>x. if nullish x then [] else js_toString x) xs)"
| "js_toString (JObj al) = ''[object Object]''"

text \<open>
  \<^verbatim>\<open>v.toLowerCase()\<close>: a string is lower-cased; reading the method of
  \<^verbatim>\<open>undefined\<close> or \<^verbatim>\<open>null\<close> and calling what is not a function raise a
  \<^verbatim>\<open>TypeError\<close>. \<^verbatim>\<open>v?.toLowerCase()\<close> gives \<^verbatim>\<open>undefined\<close> for the
  first two.
\<close>

fun call_toLowerCase :: "jsvalue \<Rightarrow> error + string" where
  "call_toLowerCase (JStr s) = Inr (toLowerCase s)"
| "call_toLowerCase JUndefined =
     Inl (TypeError ''Cannot read properties of undefined (reading toLowerCase)'')"
| "call_toLowerCase JNull =
     Inl (TypeError ''Cannot read properties of null (reading toLowerCase)'')"
| "call_toLowerCase v = Inl (TypeError ''toLowerCase is not a function'')"

definition opt_toLowerCase :: "jsvalue \<Rightarrow> error + jsvalue" where
  "opt_toLowerCase v =
     (if nullish v then Inr JUndefined
      else case call_toLowerCase v of Inl e \<Rightarrow> Inl e | Inr s \<Rightarrow> Inr (JStr s))"

section \<open>The document store\<close>

text \<open>
  The store is the MongoDB database behind \<^verbatim>\<open>getDb()\<close> (which is taken to
  connect): seven collections of documents, each collection a list in insertion order.
  The store keeps a document as it was handed over; how the driver encodes a value
  (\<^verbatim>\<open>undefined\<close> as \<^verbatim>\<open>null\<close>, or not at all) is set where the
  connection is made, outside these sources.

  The world also holds what else the service reads: the allocator of
  \<^verbatim>\<open>new ObjectId()\<close>, a counter, so that an identifier is never minted twice, and
  the clock of \<^verbatim>\<open>new Date()\<close>, which no statement below depends on. Each
  operation of the store can fail: \<open>faults\<close> says, for the operations to come and in
  their order, which ones throw (an empty list: none does). A failing operation changes
  nothing. \<open>oplog\<close> lists the writes that took effect, oldest first.
\<close>

datatype collection =
  Users | Clients | Invoices | Documents | Statements | UserPreferences | UserDefaults

type_synonym query = "(string list \<times> jsvalue) list"

datatype db_op =
    InsertOne collection doc
  | DeleteMany collection query
  | DeleteOne collection query
  | ReplaceOne collection query doc
  | UpdateOne collection query doc

record world =
  colls :: "collection \<Rightarrow> doc list"
  nextOid :: nat
  clock :: string
  faults :: "bool list"
  oplog :: "db_op list"

definition attempt :: "world \<Rightarrow> bool \<times> world" where
  "attempt w = (case faults w of [] \<Rightarrow> (False, w) | f # fs \<Rightarrow> (f, w\<lparr>faults := fs\<rparr>))"

definition storeFailure :: error where
  "storeFailure = MongoError ''store operation failed''"

definition newObjectId :: "world \<Rightarrow> jsvalue \<times> world" where
  "newObjectId w = (JObjectId (nextOid w), w\<lparr>nextOid := Suc (nextOid w)\<rparr>)"

definition newDate :: "world \<Rightarrow> jsvalue" where
  "newDate w = JDate (clock w)"

text \<open>
  A query is a list of equalities on fields, a field named by its path
  (\<^verbatim>\<open>"details.invoiceNumber"\<close> is the path \<open>[details, invoiceNumber]\<close>). A field
  matches a value when it holds that value or is an array with that value among its
  elements; \<^verbatim>\<open>null\<close> and \<^verbatim>\<open>undefined\<close> also match an absent field.
  A path leads through objects only, not through the elements of an array.
\<close>

fun getPath :: "jsvalue \<Rightarrow> string list \<Rightarrow> jsvalue option" where
  "getPath v [] = Some v"
| "getPath (JObj al) (k # ks) =
     (case map_of al k of None \<Rightarrow> None | Some v \<Rightarrow> getPath v ks)"
| "getPath v (k # ks) = None"

definition fieldMatches :: "jsvalue option \<Rightarrow> jsvalue \<Rightarrow> bool" where
  "fieldMatches stored q =
     (case stored of
        None \<Rightarrow> nullish q
      | Some v \<Rightarrow>
          v = q \<or> (nullish v \<and> nullish q) \<or>
          (case v of JArr xs \<Rightarrow> q \<in> set xs | _ \<Rightarrow> False))"

definition matches :: "query \<Rightarrow> doc \<Rightarrow> bool" where
  "matches q d = list_all (\<lambda>pv. fieldMatches (getPath (JObj d) (fst pv)) (snd pv)) q"

definition findOne :: "collection \<Rightarrow> query \<Rightarrow> world \<Rightarrow> (error + doc option) \<times> world" where
  "findOne c q w =
     (case attempt w of
        (True, w1) \<Rightarrow> (Inl storeFailure, w1)
      | (False, w1) \<Rightarrow> (Inr (find (matches q) (colls w1 c)), w1))"

definition findToArray :: "collection \<Rightarrow> query \<Rightarrow> world \<Rightarrow> (error + doc list) \<times> world" where
  "findToArray c q w =
     (case attempt w of
        (True, w1) \<Rightarrow> (Inl storeFailure, w1)
      | (False, w1) \<Rightarrow> (Inr (filter (matches q) (colls w1 c)), w1))"

text \<open>
  \<^verbatim>\<open>insertOne\<close>: a document without \<^verbatim>\<open>_id\<close> gets a new identifier from the
  driver; one that brings its \<^verbatim>\<open>_id\<close> is refused when the collection holds that
  identifier already. The result is \<^verbatim>\<open>insertedId\<close>.
\<close>

definition insertOne :: "collection \<Rightarrow> doc \<Rightarrow> world \<Rightarrow> (error + jsvalue) \<times> world" where
  "insertOne c d w =
     (case attempt w of
        (True, w1) \<Rightarrow> (Inl storeFailure, w1)
      | (False, w1) \<Rightarrow>
          (case map_of d ''_id'' of
             None \<Rightarrow>
               (case newObjectId w1 of
                  (i, w2) \<Rightarrow>
                    (Inr i,
                     w2\<lparr>colls := (colls w2)(c := colls w2 c @ [(''_id'', i) # d]),
                        oplog := oplog w2 @ [InsertOne c ((''_id'', i) # d)]\<rparr>))
           | Some i \<Rightarrow>
               if list_ex (\<lambda>e. map_of e ''_id'' = Some i) (colls w1 c)
               then (Inl (MongoError ''E11000 duplicate key error''), w1)
               else (Inr i,
                     w1\<lparr>colls := (colls w1)(c := colls w1 c @ [d]),
                        oplog := oplog w1 @ [InsertOne c d]\<rparr>)))"

definition deleteMany :: "collection \<Rightarrow> query \<Rightarrow> world \<Rightarrow> (error + unit) \<times> world" where
  "deleteMany c q w =
     (case attempt w of
        (True, w1) \<Rightarrow> (Inl storeFailure, w1)
      | (False, w1) \<Rightarrow>
          (Inr (),
           w1\<lparr>colls := (colls w1)(c := filter (\<lambda>d. \<not> matches q d) (colls w1 c)),
              oplog := oplog w1 @ [DeleteMany c q]\<rparr>))"

fun removeFirst :: "('a \<Rightarrow> bool) \<Rightarrow> 'a list \<Rightarrow> 'a list" where
  "removeFirst P [] = []"
| "removeFirst P (x # xs) = (if P x then xs else x # removeFirst P xs)"

fun changeFirst :: "('a \<Rightarrow> bool) \<Rightarrow> ('a \<Rightarrow> 'a) \<Rightarrow> 'a list \<Rightarrow> 'a list" where
  "changeFirst P f [] = []"
| "changeFirst P f (x # xs) = (if P x then f x # xs else x # changeFirst P f xs)"

definition deleteOne :: "collection \<Rightarrow> query \<Rightarrow> world \<Rightarrow> (error + unit) \<times> world" where
  "deleteOne c q w =
     (case attempt w of
        (True, w1) \<Rightarrow> (Inl storeFailure, w1)
      | (False, w1) \<Rightarrow>
          (Inr (),
           w1\<lparr>colls := (colls w1)(c := removeFirst (matches q) (colls w1 c)),
              oplog := oplog w1 @ [DeleteOne c q]\<rparr>))"

text \<open>
  \<^verbatim>\<open>replaceOne(filter, doc, { upsert: true })\<close>: the first matching document
  is replaced and keeps its \<^verbatim>\<open>_id\<close>; without a match the document is inserted
  under a new identifier.
\<close>

definition replaceOneUpsert :: "collection \<Rightarrow> query \<Rightarrow> doc \<Rightarrow> world \<Rightarrow> (error + unit) \<times> world" where
  "replaceOneUpsert c q d w =
     (case attempt w of
        (True, w1) \<Rightarrow> (Inl storeFailure, w1)
      | (False, w1) \<Rightarrow>
          (case find (matches q) (colls w1 c) of
             Some old \<Rightarrow>
               (Inr (),
                w1\<lparr>colls := (colls w1)(c :=
                       changeFirst (matches q) (\<lambda>e. (''_id'', getField e ''_id'') # d) (colls w1 c)),
                   oplog := oplog w1 @ [ReplaceOne c q ((''_id'', getField old ''_id'') # d)]\<rparr>)
           | None \<Rightarrow>
               (case newObjectId w1 of
                  (i, w2) \<Rightarrow>
                    (Inr (),
                     w2\<lparr>colls := (colls w2)(c := colls w2 c @ [(''_id'', i) # d]),
                        oplog := oplog w2 @ [ReplaceOne c q ((''_id'', i) # d)]\<rparr>))))"

text \<open>\<^verbatim>\<open>updateOne(filter, { $set: upd })\<close> sets the fields of the first match.\<close>

definition setFields :: "doc \<Rightarrow> doc \<Rightarrow> doc" where
  "setFields upd d = foldl (\<lambda>acc kv. AList.update (fst kv) (snd kv) acc) d upd"

definition updateOneSet :: "collection \<Rightarrow> query \<Rightarrow> doc \<Rightarrow> world \<Rightarrow> (error + unit) \<times> world" where
  "updateOneSet c q upd w =
     (case attempt w of
        (True, w1) \<Rightarrow> (Inl storeFailure, w1)
      | (False, w1) \<Rightarrow>
          (Inr (),
           w1\<lparr>colls := (colls w1)(c := changeFirst (matches q) (setFields upd) (colls w1 c)),
              oplog := oplog w1 @ [UpdateOne c q upd]\<rparr>))"

section \<open>The identifier remapper\<close>

text \<open>
  Class \<^verbatim>\<open>ObjectIdMapper\<close>: a \<^verbatim>\<open>Map\<close> from the text of an old identifier to
  the new one. \<^verbatim>\<open>get\<close> reads the table and, on a miss, mints an identifier; it has
  no access to the table other than reading it.
\<close>

type_synonym objectIdMapper = "string \<rightharpoonup> jsvalue"

definition mapper_set :: "string \<Rightarrow> jsvalue \<Rightarrow> objectIdMapper \<Rightarrow> objectIdMapper" where
  "mapper_set oldId newId mappings = mappings(oldId \<mapsto> newId)"

definition mapper_get :: "objectIdMapper \<Rightarrow> jsvalue \<Rightarrow> world \<Rightarrow> jsvalue \<times> world" where
  "mapper_get mappings oldId w =
     (if \<not> truthy oldId then newObjectId w
      else
        (case mappings (js_toString oldId) of
           None \<Rightarrow> newObjectId w
         | Some v \<Rightarrow> if truthy v then (v, w) else newObjectId w))"

definition mapper_has :: "objectIdMapper \<Rightarrow> jsvalue \<Rightarrow> error + bool" where
  "mapper_has mappings oldId =
     (if nullish oldId then Inl (TypeError ''Cannot read properties of undefined (reading toString)'')
      else Inr (mappings (js_toString oldId) \<noteq> None))"

definition mapper_clear :: "objectIdMapper \<Rightarrow> objectIdMapper" where
  "mapper_clear mappings = Map.empty"

section \<open>Snapshots and restore results\<close>

record kindCounts =
  clients :: nat
  invoices :: nat
  documents :: nat
  statements :: nat
  preferences :: nat
  defaults :: nat

record backupHeader =
  userId :: string
  email :: jsvalue
  backupDate :: string
  version :: string
  dataCounts :: kindCounts

record backupPayload =
  data_user :: doc
  data_clients :: "doc list"
  data_invoices :: "doc list"
  data_documents :: "doc list"
  data_statements :: "doc list"
  data_preferences :: "doc option"
  data_defaults :: "doc list"

record backupData =
  metadata :: backupHeader
  data :: backupPayload

datatype restoreMode = Merge | Replace

record skippedCounts =
  skipped_clients :: nat
  skipped_invoices :: nat
  skipped_documents :: nat
  skipped_statements :: nat

record restoreResult =
  success :: bool
  restored :: kindCounts
  skipped :: skippedCounts
  errors :: "string list"

definition zeroCounts :: kindCounts where
  "zeroCounts =
     \<lparr>clients = 0, invoices = 0, documents = 0, statements = 0, preferences = 0, defaults = 0\<rparr>"

definition initialResult :: restoreResult where
  "initialResult =
     \<lparr>success = True, restored = zeroCounts,
      skipped = \<lparr>skipped_clients = 0, skipped_invoices = 0, skipped_documents = 0,
                 skipped_statements = 0\<rparr>,
      errors = []\<rparr>"

section \<open>The restore engine\<close>

text \<open>
  Every loop of the restore service has the shape
  \<^verbatim>\<open>for (const x of xs) { try { ... } catch (error) { result.errors.push(...) } }\<close>.
  The body of the \<^verbatim>\<open>try\<close> is a function that returns the exception it threw, if
  any; in each body every statement that can throw comes before the first assignment to
  the tables and counters, so an exception leaves them as they were (the world keeps what
  the store did until then).
\<close>

fun tryEach ::
  "('a \<Rightarrow> 's \<Rightarrow> world \<Rightarrow> (error + 's) \<times> world) \<Rightarrow> (error \<Rightarrow> 's \<Rightarrow> 's) \<Rightarrow>
   'a list \<Rightarrow> 's \<Rightarrow> world \<Rightarrow> 's \<times> world" where
  "tryEach body handler [] st w = (st, w)"
| "tryEach body handler (x # xs) st w =
     (case body x st w of
        (Inr st', w') \<Rightarrow> tryEach body handler xs st' w'
      | (Inl e, w') \<Rightarrow> tryEach body handler xs (handler e st) w')"

definition pushError :: "string \<Rightarrow> error \<Rightarrow> restoreResult \<Rightarrow> restoreResult" where
  "pushError label e result = result\<lparr>errors := errors result @ [label @ message e]\<rparr>"

text \<open>\<^verbatim>\<open>record._id?.toString() || ""\<close>\<close>

definition oldIdOf :: "doc \<Rightarrow> string" where
  "oldIdOf d = (if nullish (getField d ''_id'') then [] else js_toString (getField d ''_id''))"

text \<open>
  \<^verbatim>\<open>{ ...d, createdAt: src.createdAt || new Date(), updatedAt: src.updatedAt || new Date() }\<close>
\<close>

definition withTimestamps :: "doc \<Rightarrow> world \<Rightarrow> doc \<Rightarrow> doc" where
  "withTimestamps src w d =
     AList.update ''updatedAt'' (js_or (getField src ''updatedAt'') (newDate w))
       (AList.update ''createdAt'' (js_or (getField src ''createdAt'') (newDate w)) d)"

definition ownedBy :: "objectId \<Rightarrow> query" where
  "ownedBy targetUserId = [([''userId''], JObjectId targetUserId)]"

subsection \<open>Clients\<close>

type_synonym emailMap = "string \<rightharpoonup> jsvalue"

type_synonym clientsState = "emailMap \<times> objectIdMapper \<times> restoreResult"

definition newClient :: "objectId \<Rightarrow> doc \<Rightarrow> world \<Rightarrow> doc" where
  "newClient targetUserId client w =
     withTimestamps client w
       (AList.update ''userId'' (JObjectId targetUserId) (omit [''_id'', ''userId''] client))"

definition restoreClient ::
  "objectId \<Rightarrow> restoreMode \<Rightarrow> doc \<Rightarrow> clientsState \<Rightarrow> world \<Rightarrow> (error + clientsState) \<times> world" where
  "restoreClient targetUserId mode client st w =
     (case st of (emailToIdMap, mapper, result) \<Rightarrow>
        (case call_toLowerCase (getField client ''email'') of
           Inl e \<Rightarrow> (Inl e, w)
         | Inr clientEmail \<Rightarrow>
             (case (if mode = Merge
                    then findOne Clients (ownedBy targetUserId @ [([''email''], JStr clientEmail)]) w
                    else (Inr None, w)) of
                (Inl e, w1) \<Rightarrow> (Inl e, w1)
              | (Inr (Some existing), w1) \<Rightarrow>
                  (Inr (emailToIdMap(clientEmail \<mapsto> getField existing ''_id''),
                        mapper_set (oldIdOf client) (getField existing ''_id'') mapper,
                        result\<lparr>skipped := (skipped result)
                          \<lparr>skipped_clients := Suc (skipped_clients (skipped result))\<rparr>\<rparr>),
                   w1)
              | (Inr None, w1) \<Rightarrow>
                  (case insertOne Clients (newClient targetUserId client w1) w1 of
                     (Inl e, w2) \<Rightarrow> (Inl e, w2)
                   | (Inr newId, w2) \<Rightarrow>
                       (Inr (emailToIdMap(clientEmail \<mapsto> newId),
                             mapper_set (oldIdOf client) newId mapper,
                             result\<lparr>restored := (restored result)
                               \<lparr>clients := Suc (clients (restored result))\<rparr>\<rparr>),
                        w2)))))"

definition clientFailed :: "error \<Rightarrow> clientsState \<Rightarrow> clientsState" where
  "clientFailed e st =
     (case st of (emailToIdMap, mapper, result) \<Rightarrow>
        (emailToIdMap, mapper, pushError ''Error restoring client: '' e result))"

definition restoreClients ::
  "doc list \<Rightarrow> objectId \<Rightarrow> restoreMode \<Rightarrow> objectIdMapper \<Rightarrow> restoreResult \<Rightarrow> world \<Rightarrow>
   clientsState \<times> world" where
  "restoreClients cs targetUserId mode mapper result w =
     tryEach (restoreClient targetUserId mode) clientFailed cs (Map.empty, mapper, result) w"

subsection \<open>Invoices\<close>

text \<open>
  Reading a property of a value that is not \<^verbatim>\<open>undefined\<close> or \<^verbatim>\<open>null\<close>: an
  object gives its field, every other value \<^verbatim>\<open>undefined\<close> (for the names read here,
  which no string, number, array, date or identifier has).
\<close>

definition getProp :: "jsvalue \<Rightarrow> string \<Rightarrow> jsvalue" where
  "getProp v k = (case v of JObj al \<Rightarrow> getField al k | _ \<Rightarrow> JUndefined)"

text \<open>\<^verbatim>\<open>invoice.details?.invoiceNumber || ""\<close>\<close>

definition invoiceNumberOf :: "doc \<Rightarrow> jsvalue" where
  "invoiceNumberOf invoice =
     js_or (if nullish (getField invoice ''details'') then JUndefined
            else getProp (getField invoice ''details'') ''invoiceNumber'')
       (JStr [])"

type_synonym invoicesState = "objectIdMapper \<times> restoreResult"

definition newInvoice :: "objectId \<Rightarrow> doc \<Rightarrow> world \<Rightarrow> doc" where
  "newInvoice targetUserId invoice w =
     withTimestamps invoice w
       (AList.update ''userId'' (JObjectId targetUserId) (omit [''_id'', ''userId''] invoice))"

definition restoreInvoice ::
  "objectId \<Rightarrow> restoreMode \<Rightarrow> doc \<Rightarrow> invoicesState \<Rightarrow> world \<Rightarrow> (error + invoicesState) \<times> world" where
  "restoreInvoice targetUserId mode invoice st w =
     (case st of (mapper, result) \<Rightarrow>
        (case (if mode = Merge \<and> truthy (invoiceNumberOf invoice)
               then findOne Invoices
                      (ownedBy targetUserId @
                       [([''details'', ''invoiceNumber''], invoiceNumberOf invoice)]) w
               else (Inr None, w)) of
           (Inl e, w1) \<Rightarrow> (Inl e, w1)
         | (Inr (Some existing), w1) \<Rightarrow>
             (Inr (mapper_set (oldIdOf invoice) (getField existing ''_id'') mapper,
                   result\<lparr>skipped := (skipped result)
                     \<lparr>skipped_invoices := Suc (skipped_invoices (skipped result))\<rparr>\<rparr>),
              w1)
         | (Inr None, w1) \<Rightarrow>
             (case insertOne Invoices (newInvoice targetUserId invoice w1) w1 of
                (Inl e, w2) \<Rightarrow> (Inl e, w2)
              | (Inr newId, w2) \<Rightarrow>
                  (Inr (mapper_set (oldIdOf invoice) newId mapper,
                        result\<lparr>restored := (restored result)
                          \<lparr>invoices := Suc (invoices (restored result))\<rparr>\<rparr>),
                   w2))))"

definition invoiceFailed :: "error \<Rightarrow> invoicesState \<Rightarrow> invoicesState" where
  "invoiceFailed e st =
     (case st of (mapper, result) \<Rightarrow> (mapper, pushError ''Error restoring invoice: '' e result))"

definition restoreInvoices ::
  "doc list \<Rightarrow> objectId \<Rightarrow> restoreMode \<Rightarrow> objectIdMapper \<Rightarrow> emailMap \<Rightarrow> restoreResult \<Rightarrow>
   world \<Rightarrow> invoicesState \<times> world" where
  "restoreInvoices invs targetUserId mode mapper clientEmailMap result w =
     tryEach (restoreInvoice targetUserId mode) invoiceFailed invs (mapper, result) w"

subsection \<open>Statements\<close>

text \<open>
  The new client reference of a statement: only a statement with a client reference gets
  one, and it is read from the table of client e-mails, never from the remapper.
\<close>

definition newClientIdOf :: "emailMap \<Rightarrow> doc \<Rightarrow> error + jsvalue" where
  "newClientIdOf clientEmailMap statement =
     (if truthy (getField statement ''clientId'') then
        (case opt_toLowerCase (getField statement ''clientEmail'') of
           Inl e \<Rightarrow> Inl e
         | Inr clientEmail \<Rightarrow>
             Inr (if truthy clientEmail
                  then (case clientEmailMap (js_toString clientEmail) of
                          None \<Rightarrow> JUndefined
                        | Some i \<Rightarrow> i)
                  else JUndefined))
      else Inr JUndefined)"

definition newStatement :: "objectId \<Rightarrow> doc \<Rightarrow> jsvalue \<Rightarrow> world \<Rightarrow> doc" where
  "newStatement targetUserId statement newClientId w =
     withTimestamps statement w
       (AList.update ''clientId'' newClientId
          (AList.update ''userId'' (JObjectId targetUserId)
             (omit [''_id'', ''userId'', ''clientId''] statement)))"

definition restoreStatement ::
  "objectId \<Rightarrow> emailMap \<Rightarrow> doc \<Rightarrow> restoreResult \<Rightarrow> world \<Rightarrow> (error + restoreResult) \<times> world" where
  "restoreStatement targetUserId clientEmailMap statement result w =
     (case newClientIdOf clientEmailMap statement of
        Inl e \<Rightarrow> (Inl e, w)
      | Inr newClientId \<Rightarrow>
          (case insertOne Statements (newStatement targetUserId statement newClientId w) w of
             (Inl e, w1) \<Rightarrow> (Inl e, w1)
           | (Inr newId, w1) \<Rightarrow>
               (Inr (result\<lparr>restored := (restored result)
                       \<lparr>statements := Suc (statements (restored result))\<rparr>\<rparr>),
                w1)))"

definition restoreStatements ::
  "doc list \<Rightarrow> objectId \<Rightarrow> restoreMode \<Rightarrow> objectIdMapper \<Rightarrow> emailMap \<Rightarrow> restoreResult \<Rightarrow>
   world \<Rightarrow> restoreResult \<times> world" where
  "restoreStatements sts targetUserId mode mapper clientEmailMap result w =
     tryEach (restoreStatement targetUserId clientEmailMap)
       (pushError ''Error restoring statement: '') sts result w"

subsection \<open>Documents\<close>

text \<open>\<^verbatim>\<open>ref ? mapper.get(ref) : undefined\<close>\<close>

definition remapRef :: "objectIdMapper \<Rightarrow> jsvalue \<Rightarrow> world \<Rightarrow> jsvalue \<times> world" where
  "remapRef mapper ref w = (if truthy ref then mapper_get mapper ref w else (JUndefined, w))"

definition newDocument :: "objectId \<Rightarrow> doc \<Rightarrow> jsvalue \<Rightarrow> jsvalue \<Rightarrow> world \<Rightarrow> doc" where
  "newDocument targetUserId document newInvoiceId newParentDocumentId w =
     withTimestamps document w
       (AList.update ''uploadedBy'' (JObjectId targetUserId)
          (AList.update ''parentDocumentId'' newParentDocumentId
             (AList.update ''invoiceId'' newInvoiceId
                (AList.update ''userId'' (JObjectId targetUserId)
                   (omit [''_id'', ''userId'', ''invoiceId'', ''parentDocumentId'', ''uploadedBy'']
                      document)))))"

definition restoreDocument ::
  "objectId \<Rightarrow> objectIdMapper \<Rightarrow> doc \<Rightarrow> restoreResult \<Rightarrow> world \<Rightarrow> (error + restoreResult) \<times> world" where
  "restoreDocument targetUserId mapper document result w =
     (case remapRef mapper (getField document ''invoiceId'') w of
        (newInvoiceId, w1) \<Rightarrow>
          (case remapRef mapper (getField document ''parentDocumentId'') w1 of
             (newParentDocumentId, w2) \<Rightarrow>
               (case insertOne Documents
                       (newDocument targetUserId document newInvoiceId newParentDocumentId w2) w2 of
                  (Inl e, w3) \<Rightarrow> (Inl e, w3)
                | (Inr newId, w3) \<Rightarrow>
                    (Inr (result\<lparr>restored := (restored result)
                            \<lparr>documents := Suc (documents (restored result))\<rparr>\<rparr>),
                     w3))))"

definition restoreDocuments ::
  "doc list \<Rightarrow> objectId \<Rightarrow> restoreMode \<Rightarrow> objectIdMapper \<Rightarrow> restoreResult \<Rightarrow> world \<Rightarrow>
   restoreResult \<times> world" where
  "restoreDocuments ds targetUserId mode mapper result w =
     tryEach (restoreDocument targetUserId mapper)
       (pushError ''Error restoring document: '') ds result w"

subsection \<open>Preferences\<close>

definition newPreferences :: "objectId \<Rightarrow> doc \<Rightarrow> world \<Rightarrow> doc" where
  "newPreferences targetUserId prefs w =
     withTimestamps prefs w
       (AList.update ''userId'' (JObjectId targetUserId) (omit [''_id'', ''userId''] prefs))"

definition restorePreferences ::
  "doc option \<Rightarrow> objectId \<Rightarrow> restoreMode \<Rightarrow> restoreResult \<Rightarrow> world \<Rightarrow> restoreResult \<times> world" where
  "restorePreferences prefs targetUserId mode result w =
     (case prefs of
        None \<Rightarrow> (result, w)
      | Some p \<Rightarrow>
          (case (if mode = Replace then deleteOne UserPreferences (ownedBy targetUserId) w
                 else (Inr (), w)) of
             (Inl e, w1) \<Rightarrow> (pushError ''Error restoring preferences: '' e result, w1)
           | (Inr u, w1) \<Rightarrow>
               (case replaceOneUpsert UserPreferences (ownedBy targetUserId)
                       (newPreferences targetUserId p w1) w1 of
                  (Inl e, w2) \<Rightarrow> (pushError ''Error restoring preferences: '' e result, w2)
                | (Inr u', w2) \<Rightarrow>
                    (result\<lparr>restored := (restored result)\<lparr>preferences := 1\<rparr>\<rparr>, w2))))"

subsection \<open>Defaults\<close>

definition newDefault :: "objectId \<Rightarrow> doc \<Rightarrow> world \<Rightarrow> doc" where
  "newDefault targetUserId defaultItem w =
     withTimestamps defaultItem w
       (AList.update ''userId'' (JObjectId targetUserId) (omit [''_id'', ''userId''] defaultItem))"

definition restoreDefault ::
  "objectId \<Rightarrow> restoreMode \<Rightarrow> doc \<Rightarrow> restoreResult \<Rightarrow> world \<Rightarrow> (error + restoreResult) \<times> world" where
  "restoreDefault targetUserId mode defaultItem result w =
     (case (if mode = Merge
            then findOne UserDefaults
                   (ownedBy targetUserId @ [([''name''], getField defaultItem ''name'')]) w
            else (Inr None, w)) of
        (Inl e, w1) \<Rightarrow> (Inl e, w1)
      | (Inr (Some existing), w1) \<Rightarrow>
          (case updateOneSet UserDefaults [([''_id''], getField existing ''_id'')]
                  (AList.update ''updatedAt'' (newDate w1) (omit [''_id'', ''userId''] defaultItem))
                  w1 of
             (Inl e, w2) \<Rightarrow> (Inl e, w2)
           | (Inr u, w2) \<Rightarrow> (Inr result, w2))
      | (Inr None, w1) \<Rightarrow>
          (case insertOne UserDefaults (newDefault targetUserId defaultItem w1) w1 of
             (Inl e, w2) \<Rightarrow> (Inl e, w2)
           | (Inr newId, w2) \<Rightarrow>
               (Inr (result\<lparr>restored := (restored result)
                       \<lparr>defaults := Suc (defaults (restored result))\<rparr>\<rparr>),
                w2)))"

definition restoreDefaults ::
  "doc list \<Rightarrow> objectId \<Rightarrow> restoreMode \<Rightarrow> restoreResult \<Rightarrow> world \<Rightarrow> restoreResult \<times> world" where
  "restoreDefaults ds targetUserId mode result w =
     tryEach (restoreDefault targetUserId mode)
       (pushError ''Error restoring default: '') ds result w"

subsection \<open>The whole restore\<close>

text \<open>
  \<^verbatim>\<open>await Promise.all([deleteMany, ...])\<close>: the six deletions are all issued, each
  on its own collection; the call throws when one of them failed (the first one, in the
  order of the array).
\<close>

definition sixKinds :: "collection list" where
  "sixKinds = [Clients, Invoices, Documents, Statements, UserPreferences, UserDefaults]"

fun deleteEach :: "collection list \<Rightarrow> query \<Rightarrow> world \<Rightarrow> error option \<times> world" where
  "deleteEach [] q w = (None, w)"
| "deleteEach (c # cs) q w =
     (case deleteMany c q w of
        (r, w1) \<Rightarrow>
          (case deleteEach cs q w1 of
             (failed, w2) \<Rightarrow>
               ((case r of Inl e \<Rightarrow> Some e | Inr u \<Rightarrow> failed), w2)))"

definition deleteExisting :: "objectId \<Rightarrow> world \<Rightarrow> error option \<times> world" where
  "deleteExisting targetUserId w = deleteEach sixKinds (ownedBy targetUserId) w"

text \<open>
  The six stages after the deletion, in the order of the source. None of them throws: in
  each one every statement that can throw is inside the \<^verbatim>\<open>try\<close> of its loop
  (the snapshot has the shape of \<^verbatim>\<open>BackupData\<close>: its collections are arrays of
  objects, so the loops can run over them).
\<close>

definition restoreStages ::
  "backupData \<Rightarrow> objectId \<Rightarrow> restoreMode \<Rightarrow> objectIdMapper \<Rightarrow> restoreResult \<Rightarrow> world \<Rightarrow>
   restoreResult \<times> world" where
  "restoreStages backup targetUserId mode mapper result w =
     (case restoreClients (data_clients (data backup)) targetUserId mode mapper result w of
        ((clientMappings, mapper1, result1), w1) \<Rightarrow>
          (case restoreInvoices (data_invoices (data backup)) targetUserId mode mapper1
                  clientMappings result1 w1 of
             ((mapper2, result2), w2) \<Rightarrow>
               (case restoreStatements (data_statements (data backup)) targetUserId mode mapper2
                       clientMappings result2 w2 of
                  (result3, w3) \<Rightarrow>
                    (case restoreDocuments (data_documents (data backup)) targetUserId mode
                            mapper2 result3 w3 of
                       (result4, w4) \<Rightarrow>
                         (case restorePreferences (data_preferences (data backup)) targetUserId
                                 mode result4 w4 of
                            (result5, w5) \<Rightarrow>
                              restoreDefaults (data_defaults (data backup)) targetUserId mode
                                result5 w5)))))"

text \<open>
  The body of the outer \<^verbatim>\<open>try\<close>: the exception it threw, if any, with the result
  object as it stands.
\<close>

definition restoreTry ::
  "backupData \<Rightarrow> objectId \<Rightarrow> restoreMode \<Rightarrow> objectIdMapper \<Rightarrow> restoreResult \<Rightarrow> world \<Rightarrow>
   (error option \<times> restoreResult) \<times> world" where
  "restoreTry backup targetUserId mode mapper result w =
     (case (if mode = Replace then deleteExisting targetUserId w else (None, w)) of
        (Some e, w1) \<Rightarrow> ((Some e, result), w1)
      | (None, w1) \<Rightarrow>
          (case restoreStages backup targetUserId mode mapper result w1 of
             (result', w2) \<Rightarrow> ((None, result'), w2)))"

text \<open>
  \<^verbatim>\<open>restoreUserData\<close>: \<^verbatim>\<open>new ObjectId(targetUserId)\<close> stands before the
  \<^verbatim>\<open>try\<close>, so an ill-formed identifier rejects the call and no result is returned.
\<close>

definition restoreUserData ::
  "backupData \<Rightarrow> string \<Rightarrow> restoreMode \<Rightarrow> world \<Rightarrow> (error + restoreResult) \<times> world" where
  "restoreUserData backup targetUserId mode w =
     (case newObjectIdFrom targetUserId of
        Inl e \<Rightarrow> (Inl e, w)
      | Inr targetUserIdObj \<Rightarrow>
          (case restoreTry backup targetUserIdObj mode Map.empty initialResult w of
             ((None, result), w') \<Rightarrow> (Inr result, w')
           | ((Some e, result), w') \<Rightarrow>
               (Inr (result\<lparr>success := False,
                      errors := errors result @
                        [if message e = [] then ''Unknown error during restore'' else message e]\<rparr>),
                w')))"

section \<open>Capture\<close>

text \<open>
  \<^verbatim>\<open>collectUserData\<close>: the profile is read first; the six reads of
  \<^verbatim>\<open>Promise.all\<close> are all issued, and the call throws when one of them failed.
  \<^verbatim>\<open>const { password, ...userData } = user\<close> leaves every other field of the
  profile in place.
\<close>

definition collectUserData :: "string \<Rightarrow> world \<Rightarrow> (error + backupData) \<times> world" where
  "collectUserData uid w =
     (case newObjectIdFrom uid of
        Inl e \<Rightarrow> (Inl e, w)
      | Inr userIdObj \<Rightarrow>
          (case findOne Users [([''_id''], JObjectId userIdObj)] w of
             (Inl e, w0) \<Rightarrow> (Inl e, w0)
           | (Inr None, w0) \<Rightarrow> (Inl (Error ''User not found''), w0)
           | (Inr (Some user), w0) \<Rightarrow>
               (case findToArray Clients (ownedBy userIdObj) w0 of (r1, w1) \<Rightarrow>
               (case findToArray Invoices (ownedBy userIdObj) w1 of (r2, w2) \<Rightarrow>
               (case findToArray Documents (ownedBy userIdObj) w2 of (r3, w3) \<Rightarrow>
               (case findToArray Statements (ownedBy userIdObj) w3 of (r4, w4) \<Rightarrow>
               (case findOne UserPreferences (ownedBy userIdObj) w4 of (r5, w5) \<Rightarrow>
               (case findToArray UserDefaults (ownedBy userIdObj) w5 of (r6, w6) \<Rightarrow>
                 (case r1 of Inl e \<Rightarrow> (Inl e, w6) | Inr cs \<Rightarrow>
                 (case r2 of Inl e \<Rightarrow> (Inl e, w6) | Inr invs \<Rightarrow>
                 (case r3 of Inl e \<Rightarrow> (Inl e, w6) | Inr ds \<Rightarrow>
                 (case r4 of Inl e \<Rightarrow> (Inl e, w6) | Inr sts \<Rightarrow>
                 (case r5 of Inl e \<Rightarrow> (Inl e, w6) | Inr prefs \<Rightarrow>
                 (case r6 of Inl e \<Rightarrow> (Inl e, w6) | Inr dfs \<Rightarrow>
                   (Inr \<lparr>metadata =
                           \<lparr>userId = uid,
                            email = getField user ''email'',
                            backupDate = clock w6,
                            version = ''1.0'',
                            dataCounts =
                              \<lparr>clients = length cs,
                               invoices = length invs,
                               documents = length ds,
                               statements = length sts,
                               preferences = (case prefs of None \<Rightarrow> 0 | Some p \<Rightarrow> 1),
                               defaults = length dfs\<rparr>\<rparr>,
                         data =
                           \<lparr>data_user = omit [''password''] user,
                            data_clients = cs,
                            data_invoices = invs,
                            data_documents = ds,
                            data_statements = sts,
                            data_preferences = prefs,
                            data_defaults = dfs\<rparr>\<rparr>,
                    w6)))))))))))))))"

section \<open>The serializer\<close>

text \<open>
  The snapshot as the JavaScript object that \<^verbatim>\<open>collectUserData\<close> returns.
\<close>

definition countsToJS :: "kindCounts \<Rightarrow> jsvalue" where
  "countsToJS c =
     JObj [(''clients'', JNum (int (clients c))),
           (''invoices'', JNum (int (invoices c))),
           (''documents'', JNum (int (documents c))),
           (''statements'', JNum (int (statements c))),
           (''preferences'', JNum (int (preferences c))),
           (''defaults'', JNum (int (defaults c)))]"

definition toJS :: "backupData \<Rightarrow> jsvalue" where
  "toJS b =
     JObj [(''metadata'',
            JObj [(''userId'', JStr (userId (metadata b))),
                  (''email'', email (metadata b)),
                  (''backupDate'', JStr (backupDate (metadata b))),
                  (''version'', JStr (version (metadata b))),
                  (''dataCounts'', countsToJS (dataCounts (metadata b)))]),
           (''data'',
            JObj [(''user'', JObj (data_user (data b))),
                  (''clients'', JArr (map JObj (data_clients (data b)))),
                  (''invoices'', JArr (map JObj (data_invoices (data b)))),
                  (''documents'', JArr (map JObj (data_documents (data b)))),
                  (''statements'', JArr (map JObj (data_statements (data b)))),
                  (''preferences'',
                   (case data_preferences (data b) of None \<Rightarrow> JNull | Some p \<Rightarrow> JObj p)),
                  (''defaults'', JArr (map JObj (data_defaults (data b))))])]"

text \<open>
  A JSON text is identified with the document it denotes, a gzip stream with the text it
  decompresses to (zlib is lossless); \<open>OtherText\<close> is a text that
  \<^verbatim>\<open>JSON.parse\<close> rejects, \<open>OtherBytes\<close> a buffer that \<^verbatim>\<open>gunzip\<close>
  rejects.
\<close>

datatype json =
    JsonNull
  | JsonBool bool
  | JsonNum int
  | JsonStr string
  | JsonArr "json list"
  | JsonObj "(string \<times> json) list"

datatype utf8text = JsonText json | OtherText

datatype buffer = Gzip utf8text | OtherBytes

text \<open>
  \<^verbatim>\<open>JSON.stringify(value, null, 2)\<close>: a \<^verbatim>\<open>Date\<close> and an \<^verbatim>\<open>ObjectId\<close>
  are written through their \<^verbatim>\<open>toJSON\<close> (the ISO and the hexadecimal string); a
  field whose value is \<^verbatim>\<open>undefined\<close> is left out, an array element that is
  \<^verbatim>\<open>undefined\<close> is written \<^verbatim>\<open>null\<close>; for \<^verbatim>\<open>undefined\<close> itself the
  result is \<^verbatim>\<open>undefined\<close> (\<open>None\<close>).
\<close>

fun stringify :: "jsvalue \<Rightarrow> json option" where
  "stringify JUndefined = None"
| "stringify JNull = Some JsonNull"
| "stringify (JBool b) = Some (JsonBool b)"
| "stringify (JNum n) = Some (JsonNum n)"
| "stringify (JStr s) = Some (JsonStr s)"
| "stringify (JDate d) = Some (JsonStr d)"
| "stringify (JObjectId i) = Some (JsonStr (toHexString i))"
| "stringify (JArr xs) =
     Some (JsonArr (map (\<lambda>x. case stringify x of None \<Rightarrow> JsonNull | Some j \<Rightarrow> j) xs))"
| "stringify (JObj al) =
     Some (JsonObj (concat (map (\<lambda>kv. case stringify (snd kv) of
                                        None \<Rightarrow> []
                                      | Some j \<Rightarrow> [(fst kv, j)]) al)))"

text \<open>
  \<^verbatim>\<open>JSON.parse\<close>: a member name that the text repeats keeps its first place and
  takes its last value.
\<close>

definition objectFrom :: "doc \<Rightarrow> doc" where
  "objectFrom al = foldl (\<lambda>acc kv. AList.update (fst kv) (snd kv) acc) [] al"

fun parse :: "json \<Rightarrow> jsvalue" where
  "parse JsonNull = JNull"
| "parse (JsonBool b) = JBool b"
| "parse (JsonNum n) = JNum n"
| "parse (JsonStr s) = JStr s"
| "parse (JsonArr js) = JArr (map parse js)"
| "parse (JsonObj al) = JObj (objectFrom (map (\<lambda>kv. (fst kv, parse (snd kv))) al))"

text \<open>
  The serialization step of \<^verbatim>\<open>createBackupFile\<close>
  (\<^verbatim>\<open>gzipAsync(JSON.stringify(backupData, null, 2))\<close>; zlib refuses
  \<^verbatim>\<open>undefined\<close>) and its inverse in \<^verbatim>\<open>readBackupFile\<close>
  (\<^verbatim>\<open>JSON.parse(gunzipAsync(compressed).toString("utf-8"))\<close>).
\<close>

definition serialize :: "jsvalue \<Rightarrow> error + buffer" where
  "serialize v =
     (case stringify v of
        None \<Rightarrow> Inl (TypeError ''The chunk argument must be of type string'')
      | Some j \<Rightarrow> Inr (Gzip (JsonText j)))"

definition deserialize :: "buffer \<Rightarrow> error + jsvalue" where
  "deserialize b =
     (case b of
        OtherBytes \<Rightarrow> Inl (Error ''incorrect header check'')
      | Gzip OtherText \<Rightarrow> Inl (Error ''Unexpected token in JSON'')
      | Gzip (JsonText j) \<Rightarrow> Inr (parse j))"

section \<open>The archive manager\<close>

text \<open>
  The backup directory is a list of files, each name once. A file has its bytes, its
  creation time, its size, and whether \<^verbatim>\<open>unlink\<close> may remove it. The directory
  exists and can be read (\<^verbatim>\<open>ensureBackupDir\<close> has nothing to do, \<^verbatim>\<open>readdir\<close>
  and \<^verbatim>\<open>stat\<close> succeed).
\<close>

record archiveFile =
  fname :: string
  fcontent :: buffer
  fbirthtime :: string
  fsize :: nat
  removable :: bool

definition lookupFile :: "string \<Rightarrow> archiveFile list \<Rightarrow> archiveFile option" where
  "lookupFile n fs = find (\<lambda>f. fname f = n) fs"

definition readBackupFile :: "string \<Rightarrow> archiveFile list \<Rightarrow> error + jsvalue" where
  "readBackupFile n fs =
     (case lookupFile n fs of
        None \<Rightarrow> Inl (Error ''Backup file not found'')
      | Some f \<Rightarrow> deserialize (fcontent f))"

definition writeFile :: "archiveFile \<Rightarrow> archiveFile list \<Rightarrow> archiveFile list" where
  "writeFile f fs =
     (if list_ex (\<lambda>g. fname g = fname f) fs
      then map (\<lambda>g. if fname g = fname f then g\<lparr>fcontent := fcontent f, fsize := fsize f\<rparr> else g) fs
      else fs @ [f])"

text \<open>
  \<^verbatim>\<open>createBackupFile\<close>. The length of the compressed buffer is zlib's; it is the
  parameter \<open>byteLength\<close>.
\<close>

definition backupFilename :: "string \<Rightarrow> string \<Rightarrow> string" where
  "backupFilename stamp uid =
     ''backup-user-'' @
     map (\<lambda>c. if c = CHR '':'' \<or> c = CHR ''.'' then CHR ''-'' else c) stamp @
     ''-'' @ take 8 uid @ ''.json.gz''"

definition createBackupFile ::
  "(buffer \<Rightarrow> nat) \<Rightarrow> string \<Rightarrow> string \<Rightarrow> world \<Rightarrow> archiveFile list \<Rightarrow>
   (error + string) \<times> world \<times> archiveFile list" where
  "createBackupFile byteLength uid mail w fs =
     (case collectUserData uid w of
        (Inl e, w1) \<Rightarrow> (Inl e, w1, fs)
      | (Inr backup, w1) \<Rightarrow>
          (case serialize (toJS backup) of
             Inl e \<Rightarrow> (Inl e, w1, fs)
           | Inr compressed \<Rightarrow>
               (Inr (backupFilename (clock w1) uid), w1,
                writeFile \<lparr>fname = backupFilename (clock w1) uid, fcontent = compressed,
                           fbirthtime = clock w1, fsize = byteLength compressed,
                           removable = True\<rparr> fs)))"

record backupMetadata =
  entry_id :: string
  filename :: string
  entry_userId :: jsvalue
  entry_email :: jsvalue
  entry_backupDate :: jsvalue
  fileSize :: nat
  entry_dataCounts :: jsvalue

text \<open>
  \<^verbatim>\<open>filename.replace(".json.gz", "")\<close> removes the first occurrence;
  the last element of \<^verbatim>\<open>split("-")\<close> is what follows the last dash.
\<close>

fun removeFirstOccurrence :: "string \<Rightarrow> string \<Rightarrow> string" where
  "removeFirstOccurrence pat [] = []"
| "removeFirstOccurrence pat (c # cs) =
     (if prefix pat (c # cs) then drop (length pat) (c # cs)
      else c # removeFirstOccurrence pat cs)"

definition fileUserIdOf :: "string \<Rightarrow> string" where
  "fileUserIdOf n =
     rev (takeWhile (\<lambda>c. c \<noteq> CHR ''-'') (rev (removeFirstOccurrence ''.json.gz'' n)))"

definition isBackupName :: "string \<Rightarrow> bool" where
  "isBackupName n = (prefix ''backup-user-'' n \<and> suffix ''.json.gz'' n)"

text \<open>
  The header of a file that could be read: \<^verbatim>\<open>backupData.metadata.userId\<close> and the
  like throw when \<^verbatim>\<open>backupData\<close> or its \<^verbatim>\<open>metadata\<close> is
  \<^verbatim>\<open>undefined\<close> or \<^verbatim>\<open>null\<close>.
\<close>

definition headerOf :: "jsvalue \<Rightarrow> error + jsvalue" where
  "headerOf v =
     (if nullish v then Inl (TypeError ''Cannot read properties of null (reading metadata)'')
      else if nullish (getProp v ''metadata'')
      then Inl (TypeError ''Cannot read properties of undefined (reading userId)'')
      else Inr (getProp v ''metadata''))"

definition zeroCountsJS :: jsvalue where
  "zeroCountsJS = countsToJS zeroCounts"

definition entryOf :: "archiveFile list \<Rightarrow> archiveFile \<Rightarrow> backupMetadata" where
  "entryOf fs f =
     (case (case readBackupFile (fname f) fs of Inl e \<Rightarrow> Inl e | Inr v \<Rightarrow> headerOf v) of
        Inr h \<Rightarrow>
          \<lparr>entry_id = fname f, filename = fname f,
           entry_userId = getProp h ''userId'',
           entry_email = getProp h ''email'',
           entry_backupDate = getProp h ''backupDate'',
           fileSize = fsize f,
           entry_dataCounts = getProp h ''dataCounts''\<rparr>
      | Inl e \<Rightarrow>
          \<lparr>entry_id = fname f, filename = fname f,
           entry_userId = JStr (fileUserIdOf (fname f)),
           entry_email = JStr ''unknown'',
           entry_backupDate = JStr (fbirthtime f),
           fileSize = fsize f,
           entry_dataCounts = zeroCountsJS\<rparr>)"

text \<open>
  \<^verbatim>\<open>listUserBackups\<close>. \<^verbatim>\<open>new Date(v).getTime()\<close> is the parameter
  \<open>getTime\<close>: the dates of the entries are taken to be dates (for \<^verbatim>\<open>NaN\<close>
  ECMAScript leaves the order of the sort to the implementation). The sort is stable.
\<close>

definition listUserBackups :: "(jsvalue \<Rightarrow> int) \<Rightarrow> string \<Rightarrow> archiveFile list \<Rightarrow> backupMetadata list" where
  "listUserBackups getTime uid fs =
     sort_key (\<lambda>b. - getTime (entry_backupDate b))
       (map (entryOf fs)
          (filter (\<lambda>f. prefix (fileUserIdOf (fname f)) uid)
             (filter (\<lambda>f. isBackupName (fname f)) fs)))"

definition deleteBackupFile :: "string \<Rightarrow> archiveFile list \<Rightarrow> (error + unit) \<times> archiveFile list" where
  "deleteBackupFile n fs =
     (case lookupFile n fs of
        None \<Rightarrow> (Inl (Error ''Failed to delete backup file''), fs)
      | Some f \<Rightarrow>
          if removable f then (Inr (), filter (\<lambda>g. fname g \<noteq> n) fs)
          else (Inl (Error ''Failed to delete backup file''), fs))"

text \<open>\<^verbatim>\<open>array.slice(k)\<close> for an integer \<^verbatim>\<open>k\<close>.\<close>

definition slice :: "int \<Rightarrow> 'a list \<Rightarrow> 'a list" where
  "slice k xs = (if k < 0 then drop (nat (int (length xs) + k)) xs else drop (nat k) xs)"

fun deleteAll :: "backupMetadata list \<Rightarrow> nat \<Rightarrow> archiveFile list \<Rightarrow> nat \<times> archiveFile list" where
  "deleteAll [] deletedCount fs = (deletedCount, fs)"
| "deleteAll (b # bs) deletedCount fs =
     (case deleteBackupFile (filename b) fs of
        (Inr u, fs') \<Rightarrow> deleteAll bs (Suc deletedCount) fs'
      | (Inl e, fs') \<Rightarrow> deleteAll bs deletedCount fs')"

definition cleanupOldBackups ::
  "(jsvalue \<Rightarrow> int) \<Rightarrow> string \<Rightarrow> int \<Rightarrow> archiveFile list \<Rightarrow> nat \<times> archiveFile list" where
  "cleanupOldBackups getTime uid keepCount fs =
     (if int (length (listUserBackups getTime uid fs)) \<le> keepCount then (0, fs)
      else deleteAll (slice keepCount (listUserBackups getTime uid fs)) 0 fs)"

section \<open>Predicates of the statements\<close>

text \<open>
  \<open>logged P w w'\<close>: from \<open>w\<close> to \<open>w'\<close> the store took writes that all
  satisfy \<open>P\<close>. \<open>later w w'\<close>: the clock reads the same, the allocator did not go
  back, and a store in which nothing fails is still one.
\<close>

definition logged :: "(db_op \<Rightarrow> bool) \<Rightarrow> world \<Rightarrow> world \<Rightarrow> bool" where
  "logged P w w' =
     (prefix (oplog w) (oplog w') \<and> list_all P (drop (length (oplog w)) (oplog w')))"

definition later :: "world \<Rightarrow> world \<Rightarrow> bool" where
  "later w w' =
     (clock w' = clock w \<and> (if faults w = [] then faults w' = [] else True) \<and>
      nextOid w \<le> nextOid w')"

text \<open>
  A write that leaves its record with the owner \<open>t\<close>: an inserted or replaced
  document carries \<^verbatim>\<open>userId\<close> \<open>t\<close> (a document of the documents collection
  also \<^verbatim>\<open>uploadedBy\<close> \<open>t\<close>), an update does not assign \<^verbatim>\<open>userId\<close>.
\<close>

fun ownedWrite :: "objectId \<Rightarrow> db_op \<Rightarrow> bool" where
  "ownedWrite t (InsertOne c d) =
     (getField d ''userId'' = JObjectId t \<and>
      (if c = Documents then getField d ''uploadedBy'' = JObjectId t else True))"
| "ownedWrite t (ReplaceOne c q d) = (getField d ''userId'' = JObjectId t)"
| "ownedWrite t (UpdateOne c q upd) = (map_of upd ''userId'' = None)"
| "ownedWrite t (DeleteMany c q) = True"
| "ownedWrite t (DeleteOne c q) = True"

text \<open>
  \<open>touchesOnly c w w'\<close>: from \<open>w\<close> to \<open>w'\<close> no collection other than \<open>c\<close>
  changed.
\<close>

definition allCollections :: "collection list" where
  "allCollections =
     [Users, Clients, Invoices, Documents, Statements, UserPreferences, UserDefaults]"

definition touchesOnly :: "collection \<Rightarrow> world \<Rightarrow> world \<Rightarrow> bool" where
  "touchesOnly c w w' =
     (later w w' \<and> list_all (\<lambda>k. k = c \<or> colls w' k = colls w k) allCollections)"

text \<open>
  Records as the merge keys expect them: a client whose \<^verbatim>\<open>email\<close> is a string
  in lower case, an invoice with an invoice number that is not empty, a statement whose
  \<^verbatim>\<open>clientEmail\<close> is a string or is missing.
\<close>

definition lowerCaseEmail :: "doc \<Rightarrow> bool" where
  "lowerCaseEmail c = (case getField c ''email'' of JStr e \<Rightarrow> toLowerCase e = e | _ \<Rightarrow> False)"

definition numbered :: "doc \<Rightarrow> bool" where
  "numbered invoice = truthy (invoiceNumberOf invoice)"

definition plainClientEmail :: "doc \<Rightarrow> bool" where
  "plainClientEmail s =
     (case getField s ''clientEmail'' of
        JStr e \<Rightarrow> True | JUndefined \<Rightarrow> True | JNull \<Rightarrow> True | _ \<Rightarrow> False)"

definition clientQuery :: "objectId \<Rightarrow> doc \<Rightarrow> query" where
  "clientQuery t c = ownedBy t @ [([''email''], JStr (toLowerCase (js_toString (getField c ''email''))))]"

definition invoiceQuery :: "objectId \<Rightarrow> doc \<Rightarrow> query" where
  "invoiceQuery t i = ownedBy t @ [([''details'', ''invoiceNumber''], invoiceNumberOf i)]"

definition found :: "query \<Rightarrow> collection \<Rightarrow> world \<Rightarrow> bool" where
  "found q c w = list_ex (matches q) (colls w c)"

text \<open>The counts of the header agree with the payload.\<close>

definition countsMatch :: "backupData \<Rightarrow> bool" where
  "countsMatch b =
     (clients (dataCounts (metadata b)) = length (data_clients (data b)) \<and>
      invoices (dataCounts (metadata b)) = length (data_invoices (data b)) \<and>
      documents (dataCounts (metadata b)) = length (data_documents (data b)) \<and>
      statements (dataCounts (metadata b)) = length (data_statements (data b)) \<and>
      preferences (dataCounts (metadata b))
        = (case data_preferences (data b) of None \<Rightarrow> 0 | Some p \<Rightarrow> 1) \<and>
      defaults (dataCounts (metadata b)) = length (data_defaults (data b)))"


text \<open>Whether \<^verbatim>\<open>unlink\<close> can remove the file of a name.\<close>

definition removableIn :: "archiveFile list \<Rightarrow> string \<Rightarrow> bool" where
  "removableIn fs n = (case lookupFile n fs of None \<Rightarrow> False | Some f \<Rightarrow> removable f)"

section \<open>Example data\<close>

text \<open>A store without documents in which nothing fails, and small records.\<close>

definition emptyWorld :: world where
  "emptyWorld =
     \<lparr>colls = (\<lambda>c. []), nextOid = 7, clock = ''2024-05-01T10:00:00.000Z'', faults = [],
      oplog = []\<rparr>"

definition scanDocument :: doc where
  "scanDocument = [(''name'', JStr ''scan.pdf''), (''invoiceId'', JStr ''65f0c0ffee'')]"

text \<open>
  A snapshot captured from the owner \<open>2a\<close>: a client with a mixed-case address, an
  invoice with a number, a statement and a document that refer to records the snapshot
  does not hold, preferences and one default.
\<close>

definition strangerId :: string where
  "strangerId = ''00000000000000000000002a''"

definition targetId :: string where
  "targetId = ''000000000000000000000003''"

definition annClient :: doc where
  "annClient =
     [(''_id'', JStr ''c1''), (''userId'', JStr strangerId), (''name'', JStr ''Ann''),
      (''email'', JStr ''ann@example.com'')]"

definition firstInvoice :: doc where
  "firstInvoice =
     [(''_id'', JStr ''i1''), (''userId'', JStr strangerId),
      (''details'', JObj [(''invoiceNumber'', JStr ''INV-1'')])]"

definition ghostStatement :: doc where
  "ghostStatement =
     [(''_id'', JStr ''s1''), (''userId'', JStr strangerId), (''clientId'', JStr ''c9''),
      (''clientEmail'', JStr ''Ghost@example.com'')]"

definition termsDefault :: doc where
  "termsDefault = [(''_id'', JStr ''d1''), (''userId'', JStr strangerId), (''name'', JStr ''terms'')]"

definition strangerBackup :: backupData where
  "strangerBackup =
     \<lparr>metadata =
        \<lparr>userId = strangerId, email = JStr ''stranger@example.com'',
         backupDate = ''2024-04-01T08:00:00.000Z'', version = ''1.0'',
         dataCounts = \<lparr>clients = 1, invoices = 1, documents = 1, statements = 1,
                        preferences = 1, defaults = 1\<rparr>\<rparr>,
      data =
        \<lparr>data_user = [(''_id'', JStr strangerId), (''email'', JStr ''stranger@example.com'')],
         data_clients = [annClient],
         data_invoices = [firstInvoice],
         data_documents = [(''userId'', JStr strangerId) # (''uploadedBy'', JStr strangerId) # scanDocument],
         data_statements = [ghostStatement],
         data_preferences = Some [(''userId'', JStr strangerId), (''theme'', JStr ''dark'')],
         data_defaults = [termsDefault]\<rparr>\<rparr>"

text \<open>A snapshot whose only record is a client without an e-mail address.\<close>

definition noMailBackup :: backupData where
  "noMailBackup =
     \<lparr>metadata =
        \<lparr>userId = strangerId, email = JStr ''stranger@example.com'',
         backupDate = ''2024-04-01T08:00:00.000Z'', version = ''1.0'',
         dataCounts = zeroCounts\<lparr>clients := 1\<rparr>\<rparr>,
      data =
        \<lparr>data_user = [(''_id'', JStr strangerId)],
         data_clients = [[(''_id'', JStr ''c2''), (''name'', JStr ''Bob'')]],
         data_invoices = [],
         data_documents = [],
         data_statements = [],
         data_preferences = None,
         data_defaults = []\<rparr>\<rparr>"

text \<open>
  A store that holds two clients and a default of the owner \<open>3\<close> and a client of the
  owner \<open>5\<close>.
\<close>

definition ownClient :: doc where
  "ownClient =
     [(''_id'', JObjectId 1), (''userId'', JObjectId 3), (''email'', JStr ''ann@example.com'')]"

definition otherClient :: doc where
  "otherClient =
     [(''_id'', JObjectId 2), (''userId'', JObjectId 5), (''email'', JStr ''ann@example.com'')]"

definition busyWorld :: world where
  "busyWorld =
     \<lparr>colls = (\<lambda>c. [])
        (Clients := [ownClient, otherClient,
                     [(''_id'', JObjectId 4), (''userId'', JObjectId 3), (''email'', JStr ''x@y.z'')]],
         UserDefaults := [[(''_id'', JObjectId 6), (''userId'', JObjectId 3),
                           (''name'', JStr ''terms'')]]),
      nextOid = 7, clock = ''2024-05-01T10:00:00.000Z'', faults = [], oplog = []\<rparr>"

text \<open>
  A snapshot with one invoice that has no invoice number, and one with one client whose
  address has capital letters.
\<close>

definition draftBackup :: backupData where
  "draftBackup =
     noMailBackup\<lparr>data := (data noMailBackup)
       \<lparr>data_clients := [],
        data_invoices := [[(''_id'', JStr ''i2''), (''userId'', JStr strangerId),
                           (''total'', JNum 120)]]\<rparr>\<rparr>"

definition capitalsBackup :: backupData where
  "capitalsBackup =
     noMailBackup\<lparr>data := (data noMailBackup)
       \<lparr>data_clients := [[(''_id'', JStr ''c3''), (''email'', JStr ''Ann@Example.com'')]]\<rparr>\<rparr>"

text \<open>The store of \<open>busyWorld\<close> with the profile of the owner \<open>3\<close>.\<close>

definition homeWorld :: world where
  "homeWorld =
     busyWorld\<lparr>colls := (colls busyWorld)
       (Users := [[(''_id'', JObjectId 3), (''email'', JStr ''me@example.com''),
                   (''password'', JStr ''$2b$10$hash''), (''name'', JStr ''Me'')]])\<rparr>"



text \<open>
  A backup directory: three archives of the owner \<open>3\<close> (the oldest one is not a gzip
  stream, so its date is the file's creation time) and one of another owner. The dates
  of these files, as \<^verbatim>\<open>new Date(v).getTime()\<close> orders them.
\<close>

definition headerText :: "string \<Rightarrow> string \<Rightarrow> buffer" where
  "headerText uid stamp =
     Gzip (JsonText (JsonObj
       [(''metadata'',
         JsonObj [(''userId'', JsonStr uid), (''email'', JsonStr ''me@example.com''),
                  (''backupDate'', JsonStr stamp), (''version'', JsonStr ''1.0'')]),
        (''data'', JsonObj [])]))"

definition marchFile :: archiveFile where
  "marchFile =
     \<lparr>fname = ''backup-user-2024-03-01T00-00-00-000Z-00000000.json.gz'',
      fcontent = headerText targetId ''2024-03-01T00:00:00.000Z'',
      fbirthtime = ''2024-03-01T00:00:01.000Z'', fsize = 310, removable = True\<rparr>"

definition januaryFile :: archiveFile where
  "januaryFile =
     \<lparr>fname = ''backup-user-2024-01-01T00-00-00-000Z-00000000.json.gz'',
      fcontent = OtherBytes,
      fbirthtime = ''2024-01-01T00:00:00.000Z'', fsize = 12, removable = True\<rparr>"

definition februaryFile :: archiveFile where
  "februaryFile =
     \<lparr>fname = ''backup-user-2024-02-01T00-00-00-000Z-00000000.json.gz'',
      fcontent = headerText targetId ''2024-02-01T00:00:00.000Z'',
      fbirthtime = ''2024-02-01T00:00:01.000Z'', fsize = 305, removable = True\<rparr>"

definition foreignFile :: archiveFile where
  "foreignFile =
     \<lparr>fname = ''backup-user-2024-02-15T00-00-00-000Z-ffffffff.json.gz'',
      fcontent = headerText ''ffffffffffffffffffffffff'' ''2024-02-15T00:00:00.000Z'',
      fbirthtime = ''2024-02-15T00:00:01.000Z'', fsize = 300, removable = True\<rparr>"

definition exampleDir :: "archiveFile list" where
  "exampleDir = [januaryFile, marchFile, foreignFile, februaryFile]"

definition exampleTime :: "jsvalue \<Rightarrow> int" where
  "exampleTime v =
     (if v = JStr ''2024-03-01T00:00:00.000Z'' then 1709251200000
      else if v = JStr ''2024-02-15T00:00:00.000Z'' then 1707955200000
      else if v = JStr ''2024-02-01T00:00:00.000Z'' then 1706745600000
      else if v = JStr ''2024-01-01T00:00:00.000Z'' then 1704067200000
      else 0)"

section \<open>The predicates, unfolded\<close>

lemma logged_iff: "logged P w w' = (\<exists>ops. oplog w' = oplog w @ ops \<and> list_all P ops)"
  by (auto simp: logged_def prefix_def)

lemma touchesOnly_iff:
  "touchesOnly c w w' = (later w w' \<and> (\<forall>k. k = c \<or> colls w' k = colls w k))"
proof -
  have "list_all Q allCollections = (\<forall>k. Q k)" for Q
  proof
    assume a: "list_all Q allCollections"
    show "\<forall>k. Q k"
    proof
      fix k
      show "Q k" using a by (cases k) (simp_all add: allCollections_def)
    qed
  next
    assume "\<forall>k. Q k"
    then show "list_all Q allCollections" by (simp add: list_all_iff)
  qed
  then show ?thesis by (simp add: touchesOnly_def)
qed

section \<open>Objects and store operations\<close>

lemma map_of_omit: "map_of (omit ks d) k = (if k \<in> set ks then None else map_of d k)"
  unfolding omit_def by (induction d) auto

lemma getField_omit: "getField (omit ks d) k = (if k \<in> set ks then JUndefined else getField d k)"
  by (simp add: getField_def map_of_omit)

lemma getField_Cons: "getField ((k, v) # d) k' = (if k' = k then v else getField d k')"
  by (simp add: getField_def)

lemma getField_update:
  "getField (AList.update k v d) k' = (if k' = k then v else getField d k')"
  by (simp add: getField_def update_conv')

lemma map_of_withTimestamps:
  "map_of (withTimestamps src w d) k =
     (if k = ''updatedAt'' then Some (js_or (getField src ''updatedAt'') (newDate w))
      else if k = ''createdAt'' then Some (js_or (getField src ''createdAt'') (newDate w))
      else map_of d k)"
  by (simp add: withTimestamps_def update_conv')

lemma getField_withTimestamps:
  "getField (withTimestamps src w d) k =
     (if k = ''updatedAt'' then js_or (getField src ''updatedAt'') (newDate w)
      else if k = ''createdAt'' then js_or (getField src ''createdAt'') (newDate w)
      else getField d k)"
  by (simp add: getField_def map_of_withTimestamps)

lemma attempt_no_faults: "faults w = [] \<Longrightarrow> attempt w = (False, w)"
  by (simp add: attempt_def)

lemma newDocument_no_id: "map_of (newDocument t d a b w) ''_id'' = None"
  by (simp add: newDocument_def map_of_withTimestamps update_conv' map_of_omit)

lemma getField_newDocument_invoiceId: "getField (newDocument t d a b w) ''invoiceId'' = a"
  by (simp add: newDocument_def getField_withTimestamps getField_update)

lemma mapper_get_miss:
  "mappings (js_toString oldId) = None \<Longrightarrow> mapper_get mappings oldId w = newObjectId w"
  by (simp add: mapper_get_def)

lemma faults_remapRef: "faults (snd (remapRef m r w)) = faults w"
  by (simp add: remapRef_def mapper_get_def newObjectId_def split: option.splits)

lemma colls_remapRef: "colls (snd (remapRef m r w)) = colls w"
  by (simp add: remapRef_def mapper_get_def newObjectId_def split: option.splits)

section \<open>The remapper allocates on a miss\<close>

text \<open>
  Claim C4. For an old identifier that the table does not hold, \<^verbatim>\<open>get\<close> returns
  a newly minted identifier: the next one of the allocator, which advances. It returns a
  value in every case (the function is total: no branch of it throws). The identifier is
  not recorded: asking again for the same old identifier mints another one. Restoring a
  document whose \<^verbatim>\<open>invoiceId\<close> was never assigned therefore succeeds, when the
  store does not fail: the document is inserted, is counted as restored, and its
  \<^verbatim>\<open>invoiceId\<close> is the newly minted identifier.
\<close>

theorem get_allocates_on_miss:
  assumes miss: "mappings (js_toString oldId) = None"
  shows "mapper_get mappings oldId w = (JObjectId (nextOid w), w\<lparr>nextOid := Suc (nextOid w)\<rparr>)
    \<and> fst (mapper_get mappings oldId (snd (mapper_get mappings oldId w)))
        \<noteq> fst (mapper_get mappings oldId w)
    \<and> (\<forall>document result.
          getField document ''invoiceId'' = oldId \<and> truthy oldId \<and> faults w = [] \<longrightarrow>
          (\<exists>w' d. restoreDocument t mappings document result w =
                    (Inr (result\<lparr>restored := (restored result)
                            \<lparr>documents := Suc (documents (restored result))\<rparr>\<rparr>), w')
                \<and> colls w' Documents = colls w Documents @ [d]
                \<and> getField d ''invoiceId'' = JObjectId (nextOid w)))"
proof (intro conjI allI impI)
  show "mapper_get mappings oldId w = (JObjectId (nextOid w), w\<lparr>nextOid := Suc (nextOid w)\<rparr>)"
    using miss by (simp add: mapper_get_miss newObjectId_def)
  show "fst (mapper_get mappings oldId (snd (mapper_get mappings oldId w)))
        \<noteq> fst (mapper_get mappings oldId w)"
    using miss by (simp add: mapper_get_miss newObjectId_def)
next
  fix document result
  assume a: "getField document ''invoiceId'' = oldId \<and> truthy oldId \<and> faults w = []"
  define w1 where "w1 = w\<lparr>nextOid := Suc (nextOid w)\<rparr>"
  have r1: "remapRef mappings (getField document ''invoiceId'') w = (JObjectId (nextOid w), w1)"
    using a miss by (simp add: remapRef_def mapper_get_miss newObjectId_def w1_def)
  obtain p w2 where r2: "remapRef mappings (getField document ''parentDocumentId'') w1 = (p, w2)"
    by (cases "remapRef mappings (getField document ''parentDocumentId'') w1")
  have f2: "faults w2 = []" and c2: "colls w2 = colls w"
    using faults_remapRef [of mappings "getField document ''parentDocumentId''" w1]
      colls_remapRef [of mappings "getField document ''parentDocumentId''" w1] r2 a
    by (simp_all add: w1_def)
  show "\<exists>w' d. restoreDocument t mappings document result w =
                    (Inr (result\<lparr>restored := (restored result)
                            \<lparr>documents := Suc (documents (restored result))\<rparr>\<rparr>), w')
                \<and> colls w' Documents = colls w Documents @ [d]
                \<and> getField d ''invoiceId'' = JObjectId (nextOid w)"
    using f2 c2
    by (simp add: restoreDocument_def r1 r2 insertOne_def attempt_no_faults newDocument_no_id
        newObjectId_def getField_Cons getField_newDocument_invoiceId)
qed

theorem get_allocates_on_miss_witness:
  "mapper_get Map.empty (JStr ''65f0c0ffee'') emptyWorld
     = (JObjectId 7, emptyWorld\<lparr>nextOid := 8\<rparr>)
   \<and> (\<exists>w' d. restoreDocument 3 Map.empty scanDocument initialResult emptyWorld =
                (Inr (initialResult\<lparr>restored := zeroCounts\<lparr>documents := 1\<rparr>\<rparr>), w')
            \<and> colls w' Documents = [d]
            \<and> getField d ''invoiceId'' = JObjectId 7)"
proof -
  have pre: "getField scanDocument ''invoiceId'' = JStr ''65f0c0ffee''
      \<and> truthy (JStr ''65f0c0ffee'') \<and> faults emptyWorld = []"
    by (simp add: scanDocument_def getField_def emptyWorld_def)
  have th: "mapper_get Map.empty (JStr ''65f0c0ffee'') emptyWorld
      = (JObjectId (nextOid emptyWorld), emptyWorld\<lparr>nextOid := Suc (nextOid emptyWorld)\<rparr>)
    \<and> fst (mapper_get Map.empty (JStr ''65f0c0ffee'')
             (snd (mapper_get Map.empty (JStr ''65f0c0ffee'') emptyWorld)))
        \<noteq> fst (mapper_get Map.empty (JStr ''65f0c0ffee'') emptyWorld)
    \<and> (\<forall>document result.
          getField document ''invoiceId'' = JStr ''65f0c0ffee'' \<and> truthy (JStr ''65f0c0ffee'')
            \<and> faults emptyWorld = [] \<longrightarrow>
          (\<exists>w' d. restoreDocument 3 Map.empty document result emptyWorld =
                    (Inr (result\<lparr>restored := (restored result)
                            \<lparr>documents := Suc (documents (restored result))\<rparr>\<rparr>), w')
                \<and> colls w' Documents = colls emptyWorld Documents @ [d]
                \<and> getField d ''invoiceId'' = JObjectId (nextOid emptyWorld)))"
    by (rule get_allocates_on_miss) simp
  from th have a: "mapper_get Map.empty (JStr ''65f0c0ffee'') emptyWorld
     = (JObjectId 7, emptyWorld\<lparr>nextOid := 8\<rparr>)"
    by (simp add: emptyWorld_def)
  from th pre have "\<exists>w' d. restoreDocument 3 Map.empty scanDocument initialResult emptyWorld =
                    (Inr (initialResult\<lparr>restored := (restored initialResult)
                            \<lparr>documents := Suc (documents (restored initialResult))\<rparr>\<rparr>), w')
                \<and> colls w' Documents = colls emptyWorld Documents @ [d]
                \<and> getField d ''invoiceId'' = JObjectId (nextOid emptyWorld)"
    by blast
  then have b: "\<exists>w' d. restoreDocument 3 Map.empty scanDocument initialResult emptyWorld =
                (Inr (initialResult\<lparr>restored := zeroCounts\<lparr>documents := 1\<rparr>\<rparr>), w')
            \<and> colls w' Documents = [d]
            \<and> getField d ''invoiceId'' = JObjectId 7"
    by (simp add: emptyWorld_def initialResult_def zeroCounts_def)
  from a b show ?thesis by blast
qed

section \<open>Loops and stages, relationally\<close>

lemma tryEach_invariant:
  assumes step: "\<And>x st w st' w'. x \<in> set xs \<Longrightarrow> P st w \<Longrightarrow> body x st w = (Inr st', w') \<Longrightarrow> P st' w'"
    and fail: "\<And>x st w e w'. x \<in> set xs \<Longrightarrow> P st w \<Longrightarrow> body x st w = (Inl e, w') \<Longrightarrow> P (handler e st) w'"
    and init: "P st w"
  shows "P (fst (tryEach body handler xs st w)) (snd (tryEach body handler xs st w))"
  using assms
proof (induction xs arbitrary: st w)
  case Nil
  then show ?case by simp
next
  case (Cons x xs)
  obtain r w' where b: "body x st w = (r, w')" by (cases "body x st w")
  have IH: "P (fst (tryEach body handler xs s' w')) (snd (tryEach body handler xs s' w'))"
    if "P s' w'" for s'
  proof (rule Cons.IH)
    show "\<And>x st w st' w'. x \<in> set xs \<Longrightarrow> P st w \<Longrightarrow> body x st w = (Inr st', w') \<Longrightarrow> P st' w'"
      using Cons.prems(1) by (meson list.set_intros(2))
    show "\<And>x st w e w'. x \<in> set xs \<Longrightarrow> P st w \<Longrightarrow> body x st w = (Inl e, w') \<Longrightarrow> P (handler e st) w'"
      using Cons.prems(2) by (meson list.set_intros(2))
    show "P s' w'" by (rule that)
  qed
  show ?case
  proof (cases r)
    case (Inl e)
    have "P (handler e st) w'"
      by (rule Cons.prems(2) [of x st w e w']) (use Cons.prems(3) b Inl in simp_all)
    then show ?thesis using IH [of "handler e st"] b Inl by simp
  next
    case (Inr st')
    have "P st' w'"
      by (rule Cons.prems(1) [of x st w st' w']) (use Cons.prems(3) b Inr in simp_all)
    then show ?thesis using IH [of st'] b Inr by simp
  qed
qed

lemma logged_refl: "logged P w w"
  by (simp add: logged_iff)

lemma logged_trans: "logged P w w1 \<Longrightarrow> logged P w1 w2 \<Longrightarrow> logged P w w2"
  by (auto simp: logged_iff)

lemma later_refl: "later w w"
  by (simp add: later_def)

lemma later_trans: "later w w1 \<Longrightarrow> later w1 w2 \<Longrightarrow> later w w2"
  by (auto simp: later_def)

lemma restoreClient_rel:
  assumes refl: "\<And>w. R w w" and trans: "\<And>a b c. R a b \<Longrightarrow> R b c \<Longrightarrow> R a c"
    and f: "\<And>q w r w'. findOne Clients q w = (r, w') \<Longrightarrow> R w w'"
    and i: "\<And>w r w'. insertOne Clients (newClient t c w) w = (r, w') \<Longrightarrow> R w w'"
    and run: "restoreClient t mode c st w = (r, w')"
  shows "R w w'"
  using run unfolding restoreClient_def
  by (auto split: prod.splits sum.splits option.splits if_splits
      intro: refl f i trans [OF f i])

lemma restoreInvoice_rel:
  assumes refl: "\<And>w. R w w" and trans: "\<And>a b c. R a b \<Longrightarrow> R b c \<Longrightarrow> R a c"
    and f: "\<And>q w r w'. findOne Invoices q w = (r, w') \<Longrightarrow> R w w'"
    and i: "\<And>w r w'. insertOne Invoices (newInvoice t c w) w = (r, w') \<Longrightarrow> R w w'"
    and run: "restoreInvoice t mode c st w = (r, w')"
  shows "R w w'"
  using run unfolding restoreInvoice_def
  by (auto split: prod.splits sum.splits option.splits if_splits
      intro: refl f i trans [OF f i])

lemma restoreStatement_rel:
  assumes refl: "\<And>w. R w w"
    and i: "\<And>w r w' x. insertOne Statements (newStatement t c x w) w = (r, w') \<Longrightarrow> R w w'"
    and run: "restoreStatement t em c st w = (r, w')"
  shows "R w w'"
  using run unfolding restoreStatement_def
  by (auto split: prod.splits sum.splits option.splits if_splits intro: refl i)

lemma restoreDocument_rel:
  assumes refl: "\<And>w. R w w" and trans: "\<And>a b c. R a b \<Longrightarrow> R b c \<Longrightarrow> R a c"
    and m: "\<And>x w r w'. remapRef mp x w = (r, w') \<Longrightarrow> R w w'"
    and i: "\<And>w r w' x y. insertOne Documents (newDocument t c x y w) w = (r, w') \<Longrightarrow> R w w'"
    and run: "restoreDocument t mp c st w = (r, w')"
  shows "R w w'"
  using run unfolding restoreDocument_def
  by (auto split: prod.splits sum.splits option.splits if_splits
      intro: trans [OF m trans [OF m i]])

lemma restoreDefault_rel:
  assumes refl: "\<And>w. R w w" and trans: "\<And>a b c. R a b \<Longrightarrow> R b c \<Longrightarrow> R a c"
    and f: "\<And>q w r w'. findOne UserDefaults q w = (r, w') \<Longrightarrow> R w w'"
    and u: "\<And>q w r w'. updateOneSet UserDefaults q
              (AList.update ''updatedAt'' (newDate w) (omit [''_id'', ''userId''] c)) w = (r, w')
              \<Longrightarrow> R w w'"
    and i: "\<And>w r w'. insertOne UserDefaults (newDefault t c w) w = (r, w') \<Longrightarrow> R w w'"
    and run: "restoreDefault t mode c st w = (r, w')"
  shows "R w w'"
  using run unfolding restoreDefault_def
  by (auto split: prod.splits sum.splits option.splits if_splits
      intro: refl f i trans [OF f i] trans [OF f u])

lemma restorePreferences_rel:
  assumes refl: "\<And>w. R w w" and trans: "\<And>a b c. R a b \<Longrightarrow> R b c \<Longrightarrow> R a c"
    and d: "\<And>q w r w'. deleteOne UserPreferences q w = (r, w') \<Longrightarrow> R w w'"
    and u: "\<And>q w r w' p. replaceOneUpsert UserPreferences q (newPreferences t p w) w = (r, w')
              \<Longrightarrow> R w w'"
    and run: "restorePreferences p t mode st w = (r, w')"
  shows "R w w'"
  using run unfolding restorePreferences_def
  by (auto split: prod.splits sum.splits option.splits if_splits
      intro: refl d u trans [OF d u])

lemma tryEach_rel:
  assumes refl: "\<And>w. R w w" and trans: "\<And>a b c. R a b \<Longrightarrow> R b c \<Longrightarrow> R a c"
    and body: "\<And>x st w r w'. x \<in> set xs \<Longrightarrow> body x st w = (r, w') \<Longrightarrow> R w w'"
    and run: "tryEach body handler xs st w = (st', w')"
  shows "R w w'"
proof -
  have "(\<lambda>s v. R w v) (fst (tryEach body handler xs st w)) (snd (tryEach body handler xs st w))"
    by (rule tryEach_invariant) (auto intro: refl trans body)
  then show ?thesis using run by simp
qed

lemma restoreStages_rel:
  assumes refl: "\<And>w. R w w" and trans: "\<And>a b c. R a b \<Longrightarrow> R b c \<Longrightarrow> R a c"
    and f: "\<And>c q w r w'. findOne c q w = (r, w') \<Longrightarrow> R w w'"
    and m: "\<And>mp x w r w'. remapRef mp x w = (r, w') \<Longrightarrow> R w w'"
    and ic: "\<And>x w r w'. insertOne Clients (newClient t x w) w = (r, w') \<Longrightarrow> R w w'"
    and ii: "\<And>x w r w'. insertOne Invoices (newInvoice t x w) w = (r, w') \<Longrightarrow> R w w'"
    and ist: "\<And>x y w r w'. insertOne Statements (newStatement t x y w) w = (r, w') \<Longrightarrow> R w w'"
    and idoc: "\<And>x y z w r w'. insertOne Documents (newDocument t x y z w) w = (r, w') \<Longrightarrow> R w w'"
    and idf: "\<And>x w r w'. insertOne UserDefaults (newDefault t x w) w = (r, w') \<Longrightarrow> R w w'"
    and u: "\<And>q x w r w'. updateOneSet UserDefaults q
              (AList.update ''updatedAt'' (newDate w) (omit [''_id'', ''userId''] x)) w = (r, w')
              \<Longrightarrow> R w w'"
    and d: "\<And>q w r w'. deleteOne UserPreferences q w = (r, w') \<Longrightarrow> R w w'"
    and rp: "\<And>q w r w' p. replaceOneUpsert UserPreferences q (newPreferences t p w) w = (r, w')
              \<Longrightarrow> R w w'"
    and run: "restoreStages backup t mode mp result w = (r, w')"
  shows "R w w'"
proof -
  obtain em mp1 r1 w1 where 1:
    "restoreClients (data_clients (data backup)) t mode mp result w = ((em, mp1, r1), w1)"
    by (metis prod.exhaust)
  obtain mp2 r2 w2 where 2:
    "restoreInvoices (data_invoices (data backup)) t mode mp1 em r1 w1 = ((mp2, r2), w2)"
    by (metis prod.exhaust)
  obtain r3 w3 where 3:
    "restoreStatements (data_statements (data backup)) t mode mp2 em r2 w2 = (r3, w3)"
    by (metis prod.exhaust)
  obtain r4 w4 where 4:
    "restoreDocuments (data_documents (data backup)) t mode mp2 r3 w3 = (r4, w4)"
    by (metis prod.exhaust)
  obtain r5 w5 where 5:
    "restorePreferences (data_preferences (data backup)) t mode r4 w4 = (r5, w5)"
    by (metis prod.exhaust)
  have 6: "restoreDefaults (data_defaults (data backup)) t mode r5 w5 = (r, w')"
    using run by (simp add: restoreStages_def 1 2 3 4 5)
  have a: "R w w1"
  proof (rule tryEach_rel [where R = R])
    show "tryEach (restoreClient t mode) clientFailed (data_clients (data backup))
            (Map.empty, mp, result) w = ((em, mp1, r1), w1)"
      using 1 by (simp add: restoreClients_def)
    show "\<And>x st w r w'. restoreClient t mode x st w = (r, w') \<Longrightarrow> R w w'"
      by (rule restoreClient_rel [where R = R]; (rule refl | erule (1) trans | erule f | erule ic | assumption))
  qed (rule refl, erule (1) trans)
  have b: "R w1 w2"
  proof (rule tryEach_rel [where R = R])
    show "tryEach (restoreInvoice t mode) invoiceFailed (data_invoices (data backup))
            (mp1, r1) w1 = ((mp2, r2), w2)"
      using 2 by (simp add: restoreInvoices_def)
    show "\<And>x st w r w'. restoreInvoice t mode x st w = (r, w') \<Longrightarrow> R w w'"
      by (rule restoreInvoice_rel [where R = R]; (rule refl | erule (1) trans | erule f | erule ii | assumption))
  qed (rule refl, erule (1) trans)
  have c: "R w2 w3"
  proof (rule tryEach_rel [where R = R])
    show "tryEach (restoreStatement t em) (pushError ''Error restoring statement: '')
            (data_statements (data backup)) r2 w2 = (r3, w3)"
      using 3 by (simp add: restoreStatements_def)
    show "\<And>x st w r w'. restoreStatement t em x st w = (r, w') \<Longrightarrow> R w w'"
      by (rule restoreStatement_rel [where R = R]; (rule refl | erule ist | assumption))
  qed (rule refl, erule (1) trans)
  have d': "R w3 w4"
  proof (rule tryEach_rel [where R = R])
    show "tryEach (restoreDocument t mp2) (pushError ''Error restoring document: '')
            (data_documents (data backup)) r3 w3 = (r4, w4)"
      using 4 by (simp add: restoreDocuments_def)
    show "\<And>x st w r w'. restoreDocument t mp2 x st w = (r, w') \<Longrightarrow> R w w'"
      by (rule restoreDocument_rel [where R = R];
          (rule refl | erule (1) trans | erule m | erule idoc | assumption))
  qed (rule refl, erule (1) trans)
  have e: "R w4 w5"
    by (rule restorePreferences_rel [where R = R, OF _ _ _ _ 5];
        (rule refl | erule (1) trans | erule d | erule rp))
  have g: "R w5 w'"
  proof (rule tryEach_rel [where R = R])
    show "tryEach (restoreDefault t mode) (pushError ''Error restoring default: '')
            (data_defaults (data backup)) r5 w5 = (r, w')"
      using 6 by (simp add: restoreDefaults_def)
    show "\<And>x st w r w'. restoreDefault t mode x st w = (r, w') \<Longrightarrow> R w w'"
      by (rule restoreDefault_rel [where R = R];
          (rule refl | erule (1) trans | erule f | erule u | erule idf | assumption))
  qed (rule refl, erule (1) trans)
  show ?thesis using a b c d' e g trans by blast
qed

section \<open>What the store operations write\<close>

lemma logged_findOne: "findOne c q w = (r, w') \<Longrightarrow> logged P w w'"
  by (auto simp: findOne_def logged_iff attempt_def split: list.splits bool.splits)

lemma logged_remapRef: "remapRef m x w = (r, w') \<Longrightarrow> logged P w w'"
  by (auto simp: remapRef_def mapper_get_def newObjectId_def logged_iff
      split: option.splits if_splits)

lemma logged_insertOne:
  assumes "insertOne c d w = (r, w')" "map_of d ''_id'' = None"
    "\<And>i. P (InsertOne c ((''_id'', i) # d))"
  shows "logged P w w'"
  using assms
  by (auto simp: insertOne_def logged_iff attempt_def newObjectId_def split: list.splits bool.splits)

lemma logged_deleteMany: "deleteMany c q w = (r, w') \<Longrightarrow> P (DeleteMany c q) \<Longrightarrow> logged P w w'"
  by (auto simp: deleteMany_def logged_iff attempt_def split: list.splits bool.splits)

lemma logged_deleteOne: "deleteOne c q w = (r, w') \<Longrightarrow> P (DeleteOne c q) \<Longrightarrow> logged P w w'"
  by (auto simp: deleteOne_def logged_iff attempt_def split: list.splits bool.splits)

lemma logged_replaceOneUpsert:
  "replaceOneUpsert c q d w = (r, w') \<Longrightarrow> (\<And>i. P (ReplaceOne c q ((''_id'', i) # d)))
   \<Longrightarrow> logged P w w'"
  by (auto simp: replaceOneUpsert_def logged_iff attempt_def newObjectId_def
      split: list.splits bool.splits option.splits)

lemma logged_updateOneSet:
  "updateOneSet c q u w = (r, w') \<Longrightarrow> P (UpdateOne c q u) \<Longrightarrow> logged P w w'"
  by (auto simp: updateOneSet_def logged_iff attempt_def split: list.splits bool.splits)

lemma logged_deleteEach:
  "deleteEach cs q w = (r, w') \<Longrightarrow> (\<And>c. P (DeleteMany c q)) \<Longrightarrow> logged P w w'"
proof (induction cs arbitrary: w r w')
  case Nil
  then show ?case by (simp add: logged_refl)
next
  case (Cons c cs)
  obtain r1 w1 where 1: "deleteMany c q w = (r1, w1)" by (cases "deleteMany c q w")
  obtain r2 w2 where 2: "deleteEach cs q w1 = (r2, w2)" by (cases "deleteEach cs q w1")
  have "w' = w2" using Cons.prems(1) 1 2 by simp
  moreover have "logged P w w1" using 1 Cons.prems(2) by (rule logged_deleteMany)
  moreover have "logged P w1 w2" by (rule Cons.IH [OF 2]) (rule Cons.prems(2))
  ultimately show ?case by (auto intro: logged_trans)
qed

lemma new_records_owned:
  "map_of (newClient t x w) ''_id'' = None"
  "getField (newClient t x w) ''userId'' = JObjectId t"
  "map_of (newInvoice t x w) ''_id'' = None"
  "getField (newInvoice t x w) ''userId'' = JObjectId t"
  "map_of (newStatement t x y w) ''_id'' = None"
  "getField (newStatement t x y w) ''userId'' = JObjectId t"
  "map_of (newDocument t x y z w) ''_id'' = None"
  "getField (newDocument t x y z w) ''userId'' = JObjectId t"
  "getField (newDocument t x y z w) ''uploadedBy'' = JObjectId t"
  "map_of (newDefault t x w) ''_id'' = None"
  "getField (newDefault t x w) ''userId'' = JObjectId t"
  "getField (newPreferences t x w) ''userId'' = JObjectId t"
  by (simp_all add: newClient_def newInvoice_def newStatement_def newDocument_def newDefault_def
      newPreferences_def map_of_withTimestamps getField_withTimestamps update_conv' map_of_omit
      getField_update)

lemma restoreStages_owned:
  assumes "restoreStages backup t mode mp result w = (r, w')"
  shows "logged (ownedWrite t) w w'"
proof (rule restoreStages_rel [where R = "logged (ownedWrite t)", OF _ _ _ _ _ _ _ _ _ _ _ _ assms])
  show "\<And>w. logged (ownedWrite t) w w" by (rule logged_refl)
  show "\<And>a b c. logged (ownedWrite t) a b \<Longrightarrow> logged (ownedWrite t) b c \<Longrightarrow> logged (ownedWrite t) a c"
    by (rule logged_trans)
qed (erule logged_findOne logged_remapRef
      | (erule logged_insertOne logged_replaceOneUpsert logged_updateOneSet logged_deleteOne;
         simp add: new_records_owned getField_Cons update_conv' map_of_omit))+

section \<open>Restore rewrites the owner\<close>

text \<open>
  Claim C9. Whatever the snapshot holds (the owner it was captured from plays no part),
  a restore for the target owner \<open>t\<close> returns a result, and every write it makes to
  the store leaves its record with \<open>t\<close>: each inserted client, invoice, statement,
  document and default and the upserted preferences record carry \<^verbatim>\<open>userId\<close>
  \<open>t\<close>, each inserted document also \<^verbatim>\<open>uploadedBy\<close> \<open>t\<close>, and the update of an
  existing default does not assign \<^verbatim>\<open>userId\<close>.
\<close>

theorem restore_rewrites_owner:
  assumes "newObjectIdFrom tid = Inr t"
  shows "\<exists>r w' ops. restoreUserData backup tid mode w = (Inr r, w')
           \<and> oplog w' = oplog w @ ops \<and> list_all (ownedWrite t) ops"
proof -
  obtain failed w1 where d: "(if mode = Replace then deleteExisting t w else (None, w)) = (failed, w1)"
    by (metis prod.exhaust)
  have l1: "logged (ownedWrite t) w w1"
    using d by (auto simp: deleteExisting_def logged_refl split: if_splits intro: logged_deleteEach)
  obtain r2 w2 where s: "restoreStages backup t mode Map.empty initialResult w1 = (r2, w2)"
    by (metis prod.exhaust)
  have l2: "logged (ownedWrite t) w1 w2" using s by (rule restoreStages_owned)
  show ?thesis
  proof (cases failed)
    case None
    then have "restoreUserData backup tid mode w = (Inr r2, w2)"
      using assms d s by (simp add: restoreUserData_def restoreTry_def)
    then show ?thesis using logged_trans [OF l1 l2] by (auto simp: logged_iff)
  next
    case (Some e)
    then have "\<exists>r. restoreUserData backup tid mode w = (Inr r, w1)"
      using assms d by (simp add: restoreUserData_def restoreTry_def)
    then show ?thesis using l1 by (auto simp: logged_iff)
  qed
qed

lemma targetId_valid: "newObjectIdFrom targetId = Inr 3"
  by (simp add: targetId_def newObjectIdFrom_def hexValue_def)

theorem restore_rewrites_owner_witness:
  "\<exists>r w' ops. restoreUserData strangerBackup targetId Merge emptyWorld = (Inr r, w')
     \<and> oplog w' = oplog emptyWorld @ ops \<and> list_all (ownedWrite 3) ops \<and> length ops = 6"
proof -
  obtain r w' ops where
    run: "restoreUserData strangerBackup targetId Merge emptyWorld = (Inr r, w')"
    and log: "oplog w' = oplog emptyWorld @ ops" and own: "list_all (ownedWrite 3) ops"
    using restore_rewrites_owner [OF targetId_valid, of strangerBackup Merge emptyWorld]
    by blast
  have "length (oplog (snd (restoreUserData strangerBackup targetId Merge emptyWorld))) = 6"
    by code_simp
  then have "length ops = 6" using run log by (simp add: emptyWorld_def)
  then show ?thesis using run log own by blast
qed

section \<open>Clock, allocator and failures along the operations\<close>

lemma later_findOne: "findOne c q w = (r, w') \<Longrightarrow> later w w'"
  by (auto simp: findOne_def later_def attempt_def split: list.splits bool.splits)

lemma later_insertOne: "insertOne c d w = (r, w') \<Longrightarrow> later w w'"
  by (auto simp: insertOne_def later_def attempt_def newObjectId_def
      split: list.splits bool.splits option.splits if_splits)

lemma later_deleteMany: "deleteMany c q w = (r, w') \<Longrightarrow> later w w'"
  by (auto simp: deleteMany_def later_def attempt_def split: list.splits bool.splits)

lemma later_deleteOne: "deleteOne c q w = (r, w') \<Longrightarrow> later w w'"
  by (auto simp: deleteOne_def later_def attempt_def split: list.splits bool.splits)

lemma later_replaceOneUpsert: "replaceOneUpsert c q d w = (r, w') \<Longrightarrow> later w w'"
  by (auto simp: replaceOneUpsert_def later_def attempt_def newObjectId_def
      split: list.splits bool.splits option.splits)

lemma later_updateOneSet: "updateOneSet c q u w = (r, w') \<Longrightarrow> later w w'"
  by (auto simp: updateOneSet_def later_def attempt_def split: list.splits bool.splits)

lemma later_remapRef: "remapRef m x w = (r, w') \<Longrightarrow> later w w'"
  by (auto simp: remapRef_def mapper_get_def newObjectId_def later_def
      split: option.splits if_splits)

lemma later_faults: "later w w' \<Longrightarrow> faults w = [] \<Longrightarrow> faults w' = []"
  by (simp add: later_def)


lemma newDate_clock: "clock w' = clock w \<Longrightarrow> newDate w' = newDate w"
  by (simp add: newDate_def)


lemma insertOne_no_faults:
  "faults w = [] \<Longrightarrow> map_of d ''_id'' = None \<Longrightarrow>
   insertOne c d w =
     (Inr (JObjectId (nextOid w)),
      w\<lparr>nextOid := Suc (nextOid w),
        colls := (colls w)(c := colls w c @ [(''_id'', JObjectId (nextOid w)) # d]),
        oplog := oplog w @ [InsertOne c ((''_id'', JObjectId (nextOid w)) # d)]\<rparr>)"
  by (simp add: insertOne_def attempt_no_faults newObjectId_def)

lemma findOne_no_faults:
  "faults w = [] \<Longrightarrow> findOne c q w = (Inr (find (matches q) (colls w c)), w)"
  by (simp add: findOne_def attempt_no_faults)

lemma grows_insertOne:
  "insertOne c d w = (r, w') \<Longrightarrow> set (colls w k) \<subseteq> set (colls w' k)"
  by (auto simp: insertOne_def attempt_def newObjectId_def
      split: list.splits bool.splits option.splits if_splits)



section \<open>A statement whose client is not in the table\<close>






section \<open>The success flag\<close>

lemma pushError_success: "success (pushError l e r) = success r"
  by (simp add: pushError_def)

lemma restoreClients_success:
  "success (snd (snd (fst (restoreClients cs t mode mp result w)))) = success result"
proof -
  have "(\<lambda>st v. success (snd (snd st)) = success result)
      (fst (tryEach (restoreClient t mode) clientFailed cs (Map.empty, mp, result) w))
      (snd (tryEach (restoreClient t mode) clientFailed cs (Map.empty, mp, result) w))"
    by (rule tryEach_invariant)
      (auto simp: restoreClient_def clientFailed_def pushError_success
        split: prod.splits sum.splits option.splits if_splits)
  then show ?thesis by (simp add: restoreClients_def)
qed

lemma restoreInvoices_success:
  "success (snd (fst (restoreInvoices invs t mode mp em result w))) = success result"
proof -
  have "(\<lambda>st v. success (snd st) = success result)
      (fst (tryEach (restoreInvoice t mode) invoiceFailed invs (mp, result) w))
      (snd (tryEach (restoreInvoice t mode) invoiceFailed invs (mp, result) w))"
    by (rule tryEach_invariant)
      (auto simp: restoreInvoice_def invoiceFailed_def pushError_success
        split: prod.splits sum.splits option.splits if_splits)
  then show ?thesis by (simp add: restoreInvoices_def)
qed

lemma restoreStatements_success:
  "success (fst (restoreStatements sts t mode mp em result w)) = success result"
proof -
  have "(\<lambda>st v. success st = success result)
      (fst (tryEach (restoreStatement t em) (pushError ''Error restoring statement: '') sts result w))
      (snd (tryEach (restoreStatement t em) (pushError ''Error restoring statement: '') sts result w))"
    by (rule tryEach_invariant)
      (auto simp: restoreStatement_def pushError_success
        split: prod.splits sum.splits option.splits if_splits)
  then show ?thesis by (simp add: restoreStatements_def)
qed

lemma restoreDocuments_success:
  "success (fst (restoreDocuments ds t mode mp result w)) = success result"
proof -
  have "(\<lambda>st v. success st = success result)
      (fst (tryEach (restoreDocument t mp) (pushError ''Error restoring document: '') ds result w))
      (snd (tryEach (restoreDocument t mp) (pushError ''Error restoring document: '') ds result w))"
    by (rule tryEach_invariant)
      (auto simp: restoreDocument_def pushError_success
        split: prod.splits sum.splits option.splits if_splits)
  then show ?thesis by (simp add: restoreDocuments_def)
qed

lemma restorePreferences_success:
  "success (fst (restorePreferences p t mode result w)) = success result"
  by (auto simp: restorePreferences_def pushError_success
      split: prod.splits sum.splits option.splits if_splits)

lemma restoreDefaults_success:
  "success (fst (restoreDefaults ds t mode result w)) = success result"
proof -
  have "(\<lambda>st v. success st = success result)
      (fst (tryEach (restoreDefault t mode) (pushError ''Error restoring default: '') ds result w))
      (snd (tryEach (restoreDefault t mode) (pushError ''Error restoring default: '') ds result w))"
    by (rule tryEach_invariant)
      (auto simp: restoreDefault_def pushError_success
        split: prod.splits sum.splits option.splits if_splits)
  then show ?thesis by (simp add: restoreDefaults_def)
qed

lemma restoreStages_success:
  "success (fst (restoreStages backup t mode mp result w)) = success result"
proof -
  obtain em mp1 r1 w1 where 1:
    "restoreClients (data_clients (data backup)) t mode mp result w = ((em, mp1, r1), w1)"
    by (metis prod.exhaust)
  obtain mp2 r2 w2 where 2:
    "restoreInvoices (data_invoices (data backup)) t mode mp1 em r1 w1 = ((mp2, r2), w2)"
    by (metis prod.exhaust)
  obtain r3 w3 where 3:
    "restoreStatements (data_statements (data backup)) t mode mp2 em r2 w2 = (r3, w3)"
    by (metis prod.exhaust)
  obtain r4 w4 where 4:
    "restoreDocuments (data_documents (data backup)) t mode mp2 r3 w3 = (r4, w4)"
    by (metis prod.exhaust)
  obtain r5 w5 where 5:
    "restorePreferences (data_preferences (data backup)) t mode r4 w4 = (r5, w5)"
    by (metis prod.exhaust)
  have "success r1 = success result"
    using restoreClients_success [of "data_clients (data backup)" t mode mp result w] 1 by simp
  moreover have "success r2 = success r1"
    using restoreInvoices_success [of "data_invoices (data backup)" t mode mp1 em r1 w1] 2 by simp
  moreover have "success r3 = success r2"
    using restoreStatements_success [of "data_statements (data backup)" t mode mp2 em r2 w2] 3
    by simp
  moreover have "success r4 = success r3"
    using restoreDocuments_success [of "data_documents (data backup)" t mode mp2 r3 w3] 4 by simp
  moreover have "success r5 = success r4"
    using restorePreferences_success [of "data_preferences (data backup)" t mode r4 w4] 5 by simp
  moreover have "success (fst (restoreDefaults (data_defaults (data backup)) t mode r5 w5))
      = success r5"
    by (rule restoreDefaults_success)
  ultimately show ?thesis by (simp add: restoreStages_def 1 2 3 4 5)
qed

lemma deleteMany_fails:
  "deleteMany c q w = (r, w') \<Longrightarrow>
     isl r = (case faults w of [] \<Rightarrow> False | f # fs \<Rightarrow> f) \<and> faults w' = tl (faults w)"
  by (auto simp: deleteMany_def attempt_def split: list.splits bool.splits)

lemma deleteEach_failed:
  "deleteEach cs q w = (failed, w') \<Longrightarrow>
     (failed \<noteq> None) = (True \<in> set (take (length cs) (faults w)))"
proof (induction cs arbitrary: w failed w')
  case Nil
  then show ?case by simp
next
  case (Cons c cs)
  obtain r1 w1 where 1: "deleteMany c q w = (r1, w1)" by (cases "deleteMany c q w")
  obtain r2 w2 where 2: "deleteEach cs q w1 = (r2, w2)" by (cases "deleteEach cs q w1")
  have f: "failed = (case r1 of Inl e \<Rightarrow> Some e | Inr u \<Rightarrow> r2)"
    using Cons.prems 1 2 by auto
  have ih: "(r2 \<noteq> None) = (True \<in> set (take (length cs) (faults w1)))"
    using 2 by (rule Cons.IH)
  show ?case
    using deleteMany_fails [OF 1] ih f
    by (cases "faults w"; cases r1) auto
qed

text \<open>
  Claim C5. A restore for a well-formed target identifier returns a result. Its
  \<^verbatim>\<open>success\<close> flag is false exactly when the body of the outer \<^verbatim>\<open>try\<close>
  threw, and that happens exactly when the restore runs in replace mode and one of the
  six initial deletions fails. The six stages never change the flag, whatever they
  append to the list of errors.
\<close>

theorem success_false_iff_toplevel_exception:
  assumes "newObjectIdFrom tid = Inr t"
  shows "\<exists>r w'. restoreUserData backup tid mode w = (Inr r, w')
     \<and> (success r = False) = (fst (fst (restoreTry backup t mode Map.empty initialResult w)) \<noteq> None)
     \<and> (success r = False) = (mode = Replace \<and> True \<in> set (take 6 (faults w)))
     \<and> (\<forall>mapper result v.
           success (fst (restoreStages backup t mode mapper result v)) = success result)"
proof -
  obtain failed w1 where d: "(if mode = Replace then deleteExisting t w else (None, w)) = (failed, w1)"
    by (metis prod.exhaust)
  have fl: "(failed \<noteq> None) = (mode = Replace \<and> True \<in> set (take 6 (faults w)))"
  proof (cases "mode = Replace")
    case True
    then have "deleteEach sixKinds (ownedBy t) w = (failed, w1)"
      using d by (simp add: deleteExisting_def)
    moreover have "length sixKinds = 6" by (simp add: sixKinds_def)
    ultimately show ?thesis using deleteEach_failed [of sixKinds "ownedBy t" w failed w1] True
      by simp
  next
    case False
    then show ?thesis using d by auto
  qed
  obtain r2 w2 where s: "restoreStages backup t mode Map.empty initialResult w1 = (r2, w2)"
    by (metis prod.exhaust)
  have s2: "success r2 = True"
    using restoreStages_success [of backup t mode Map.empty initialResult w1] s
    by (simp add: initialResult_def)
  show ?thesis
  proof (cases failed)
    case None
    then have "restoreUserData backup tid mode w = (Inr r2, w2)"
      and "fst (fst (restoreTry backup t mode Map.empty initialResult w)) = None"
      using assms d s by (simp_all add: restoreUserData_def restoreTry_def)
    then show ?thesis using s2 fl None restoreStages_success by auto
  next
    case (Some e)
    then have "\<exists>r. restoreUserData backup tid mode w = (Inr r, w1) \<and> success r = False"
      and "fst (fst (restoreTry backup t mode Map.empty initialResult w)) = Some e"
      using assms d by (simp_all add: restoreUserData_def restoreTry_def)
    then show ?thesis using fl Some restoreStages_success by auto
  qed
qed

theorem success_false_iff_toplevel_exception_witness:
  "(\<exists>r w'. restoreUserData noMailBackup targetId Merge emptyWorld = (Inr r, w')
      \<and> success r \<and> errors r \<noteq> [])
   \<and> (\<exists>r w'. restoreUserData noMailBackup targetId Replace (emptyWorld\<lparr>faults := [False, True]\<rparr>)
          = (Inr r, w') \<and> \<not> success r \<and> restored r = zeroCounts)"
proof -
  obtain r w' where run: "restoreUserData noMailBackup targetId Merge emptyWorld = (Inr r, w')"
    and flag: "(success r = False) = (Merge = Replace \<and> True \<in> set (take 6 (faults emptyWorld)))"
    using success_false_iff_toplevel_exception [OF targetId_valid, of noMailBackup Merge emptyWorld]
    by blast
  have "errors (projr (fst (restoreUserData noMailBackup targetId Merge emptyWorld))) \<noteq> []"
    by code_simp
  then have a: "\<exists>r w'. restoreUserData noMailBackup targetId Merge emptyWorld = (Inr r, w')
      \<and> success r \<and> errors r \<noteq> []"
    using run flag by simp
  obtain r2 w2 where run2:
    "restoreUserData noMailBackup targetId Replace (emptyWorld\<lparr>faults := [False, True]\<rparr>)
       = (Inr r2, w2)"
    and flag2: "(success r2 = False)
       = (Replace = Replace \<and> True \<in> set (take 6 (faults (emptyWorld\<lparr>faults := [False, True]\<rparr>))))"
    using success_false_iff_toplevel_exception
      [OF targetId_valid, of noMailBackup Replace "emptyWorld\<lparr>faults := [False, True]\<rparr>"]
    by blast
  have "restored (projr (fst (restoreUserData noMailBackup targetId Replace
          (emptyWorld\<lparr>faults := [False, True]\<rparr>)))) = zeroCounts"
    by code_simp
  then have b: "\<exists>r w'. restoreUserData noMailBackup targetId Replace
      (emptyWorld\<lparr>faults := [False, True]\<rparr>) = (Inr r, w') \<and> \<not> success r \<and> restored r = zeroCounts"
    using run2 flag2 by simp
  from a b show ?thesis by blast
qed

section \<open>Replace mode deletes first\<close>





section \<open>Which collections a stage touches\<close>

lemma touchesOnly_refl: "touchesOnly c w w"
  by (simp add: touchesOnly_iff later_refl)

lemma touchesOnly_trans: "touchesOnly c w w1 \<Longrightarrow> touchesOnly c w1 w2 \<Longrightarrow> touchesOnly c w w2"
  unfolding touchesOnly_iff by (metis later_trans)

lemma colls_findOne: "findOne k q w = (r, w') \<Longrightarrow> colls w' = colls w"
  by (auto simp: findOne_def attempt_def split: list.splits bool.splits)

lemma colls_remapRef': "remapRef m x w = (r, w') \<Longrightarrow> colls w' = colls w"
  by (auto simp: remapRef_def mapper_get_def newObjectId_def split: option.splits if_splits)

lemma colls_insertOne: "insertOne c d w = (r, w') \<Longrightarrow> k \<noteq> c \<Longrightarrow> colls w' k = colls w k"
  by (auto simp: insertOne_def attempt_def newObjectId_def
      split: list.splits bool.splits option.splits if_splits)

lemma colls_deleteOne: "deleteOne c q w = (r, w') \<Longrightarrow> k \<noteq> c \<Longrightarrow> colls w' k = colls w k"
  by (auto simp: deleteOne_def attempt_def split: list.splits bool.splits)

lemma colls_replaceOneUpsert:
  "replaceOneUpsert c q d w = (r, w') \<Longrightarrow> k \<noteq> c \<Longrightarrow> colls w' k = colls w k"
  by (auto simp: replaceOneUpsert_def attempt_def newObjectId_def
      split: list.splits bool.splits option.splits)

lemma colls_updateOneSet:
  "updateOneSet c q u w = (r, w') \<Longrightarrow> k \<noteq> c \<Longrightarrow> colls w' k = colls w k"
  by (auto simp: updateOneSet_def attempt_def split: list.splits bool.splits)

lemma touchesOnly_findOne: "findOne k q w = (r, w') \<Longrightarrow> touchesOnly c w w'"
  unfolding touchesOnly_iff using later_findOne colls_findOne by metis

lemma touchesOnly_remapRef: "remapRef m x w = (r, w') \<Longrightarrow> touchesOnly c w w'"
  unfolding touchesOnly_iff using later_remapRef colls_remapRef' by metis

lemma touchesOnly_insertOne: "insertOne c d w = (r, w') \<Longrightarrow> touchesOnly c w w'"
  unfolding touchesOnly_iff using later_insertOne colls_insertOne by metis

lemma touchesOnly_deleteOne: "deleteOne c q w = (r, w') \<Longrightarrow> touchesOnly c w w'"
  unfolding touchesOnly_iff using later_deleteOne colls_deleteOne by metis

lemma touchesOnly_replaceOneUpsert: "replaceOneUpsert c q d w = (r, w') \<Longrightarrow> touchesOnly c w w'"
  unfolding touchesOnly_iff using later_replaceOneUpsert colls_replaceOneUpsert by metis

lemma touchesOnly_updateOneSet: "updateOneSet c q u w = (r, w') \<Longrightarrow> touchesOnly c w w'"
  unfolding touchesOnly_iff using later_updateOneSet colls_updateOneSet by metis

lemma restoreClients_touches:
  assumes "restoreClients cs t mode mp result w = (st, w')"
  shows "touchesOnly Clients w w'"
proof (rule tryEach_rel [where R = "touchesOnly Clients"])
  show "tryEach (restoreClient t mode) clientFailed cs (Map.empty, mp, result) w = (st, w')"
    using assms by (simp add: restoreClients_def)
  show "\<And>x st w r w'. restoreClient t mode x st w = (r, w') \<Longrightarrow> touchesOnly Clients w w'"
    by (rule restoreClient_rel [where R = "touchesOnly Clients"];
        (rule touchesOnly_refl | erule (1) touchesOnly_trans | erule touchesOnly_findOne
          | erule touchesOnly_insertOne | assumption))
qed (rule touchesOnly_refl, erule (1) touchesOnly_trans)

lemma restoreInvoices_touches:
  assumes "restoreInvoices invs t mode mp em result w = (st, w')"
  shows "touchesOnly Invoices w w'"
proof (rule tryEach_rel [where R = "touchesOnly Invoices"])
  show "tryEach (restoreInvoice t mode) invoiceFailed invs (mp, result) w = (st, w')"
    using assms by (simp add: restoreInvoices_def)
  show "\<And>x st w r w'. restoreInvoice t mode x st w = (r, w') \<Longrightarrow> touchesOnly Invoices w w'"
    by (rule restoreInvoice_rel [where R = "touchesOnly Invoices"];
        (rule touchesOnly_refl | erule (1) touchesOnly_trans | erule touchesOnly_findOne
          | erule touchesOnly_insertOne | assumption))
qed (rule touchesOnly_refl, erule (1) touchesOnly_trans)

lemma restoreStatements_touches:
  assumes "restoreStatements sts t mode mp em result w = (st, w')"
  shows "touchesOnly Statements w w'"
proof (rule tryEach_rel [where R = "touchesOnly Statements"])
  show "tryEach (restoreStatement t em) (pushError ''Error restoring statement: '') sts result w
          = (st, w')"
    using assms by (simp add: restoreStatements_def)
  show "\<And>x st w r w'. restoreStatement t em x st w = (r, w') \<Longrightarrow> touchesOnly Statements w w'"
    by (rule restoreStatement_rel [where R = "touchesOnly Statements"];
        (rule touchesOnly_refl | erule touchesOnly_insertOne | assumption))
qed (rule touchesOnly_refl, erule (1) touchesOnly_trans)

lemma restoreDocuments_touches:
  assumes "restoreDocuments ds t mode mp result w = (st, w')"
  shows "touchesOnly Documents w w'"
proof (rule tryEach_rel [where R = "touchesOnly Documents"])
  show "tryEach (restoreDocument t mp) (pushError ''Error restoring document: '') ds result w
          = (st, w')"
    using assms by (simp add: restoreDocuments_def)
  show "\<And>x st w r w'. restoreDocument t mp x st w = (r, w') \<Longrightarrow> touchesOnly Documents w w'"
    by (rule restoreDocument_rel [where R = "touchesOnly Documents"];
        (rule touchesOnly_refl | erule (1) touchesOnly_trans | erule touchesOnly_remapRef
          | erule touchesOnly_insertOne | assumption))
qed (rule touchesOnly_refl, erule (1) touchesOnly_trans)

lemma restorePreferences_touches:
  assumes "restorePreferences p t mode result w = (st, w')"
  shows "touchesOnly UserPreferences w w'"
  by (rule restorePreferences_rel [where R = "touchesOnly UserPreferences", OF _ _ _ _ assms];
      (rule touchesOnly_refl | erule (1) touchesOnly_trans | erule touchesOnly_deleteOne
        | erule touchesOnly_replaceOneUpsert))

lemma restoreDefaults_touches:
  assumes "restoreDefaults ds t mode result w = (st, w')"
  shows "touchesOnly UserDefaults w w'"
proof (rule tryEach_rel [where R = "touchesOnly UserDefaults"])
  show "tryEach (restoreDefault t mode) (pushError ''Error restoring default: '') ds result w
          = (st, w')"
    using assms by (simp add: restoreDefaults_def)
  show "\<And>x st w r w'. restoreDefault t mode x st w = (r, w') \<Longrightarrow> touchesOnly UserDefaults w w'"
    by (rule restoreDefault_rel [where R = "touchesOnly UserDefaults"];
        (rule touchesOnly_refl | erule (1) touchesOnly_trans | erule touchesOnly_findOne
          | erule touchesOnly_updateOneSet | erule touchesOnly_insertOne | assumption))
qed (rule touchesOnly_refl, erule (1) touchesOnly_trans)

lemma touchesOnly_faults: "touchesOnly c w w' \<Longrightarrow> faults w = [] \<Longrightarrow> faults w' = []"
  by (simp add: touchesOnly_iff later_def)

lemma touchesOnly_colls: "touchesOnly c w w' \<Longrightarrow> k \<noteq> c \<Longrightarrow> colls w' k = colls w k"
  by (auto simp: touchesOnly_iff)

section \<open>Merging what is already there\<close>

lemma found_iff: "found q c w = (find (matches q) (colls w c) \<noteq> None)"
  by (auto simp: found_def find_None_iff list_ex_iff)

lemma skip_clients:
  assumes "faults w = []"
    and "\<forall>c\<in>set cs. (\<exists>e. getField c ''email'' = JStr e) \<and> found (clientQuery t c) Clients w"
  shows "\<exists>em' mp'. tryEach (restoreClient t Merge) clientFailed cs (em, mp, r) w =
           ((em', mp', r\<lparr>skipped := (skipped r)
               \<lparr>skipped_clients := skipped_clients (skipped r) + length cs\<rparr>\<rparr>), w)"
  using assms(2)
proof (induction cs arbitrary: em mp r)
  case Nil
  then show ?case by simp
next
  case (Cons c cs)
  obtain e where e: "getField c ''email'' = JStr e" using Cons.prems by auto
  have "found (clientQuery t c) Clients w" using Cons.prems by simp
  then obtain existing where
    f: "find (matches (ownedBy t @ [([''email''], JStr (toLowerCase e))])) (colls w Clients)
          = Some existing"
    by (auto simp: found_iff clientQuery_def e)
  define r1 where "r1 = r\<lparr>skipped := (skipped r)
      \<lparr>skipped_clients := Suc (skipped_clients (skipped r))\<rparr>\<rparr>"
  define em1 where "em1 = em(toLowerCase e \<mapsto> getField existing ''_id'')"
  define mp1 where "mp1 = mapper_set (oldIdOf c) (getField existing ''_id'') mp"
  have step: "restoreClient t Merge c (em, mp, r) w = (Inr (em1, mp1, r1), w)"
    by (simp add: restoreClient_def e findOne_no_faults [OF assms(1)] f r1_def em1_def mp1_def)
  have others: "\<forall>c\<in>set cs. (\<exists>e. getField c ''email'' = JStr e)
      \<and> found (clientQuery t c) Clients w"
    using Cons.prems by simp
  obtain em' mp' where rest:
    "tryEach (restoreClient t Merge) clientFailed cs (em1, mp1, r1) w =
     ((em', mp', r1\<lparr>skipped := (skipped r1)
         \<lparr>skipped_clients := skipped_clients (skipped r1) + length cs\<rparr>\<rparr>), w)"
    using Cons.IH [OF others, of em1 mp1 r1] by blast
  have "r1\<lparr>skipped := (skipped r1)
         \<lparr>skipped_clients := skipped_clients (skipped r1) + length cs\<rparr>\<rparr>
      = r\<lparr>skipped := (skipped r)
               \<lparr>skipped_clients := skipped_clients (skipped r) + length (c # cs)\<rparr>\<rparr>"
    by (simp add: r1_def)
  then show ?case using step rest by simp
qed

lemma skip_invoices:
  assumes "faults w = []"
    and "\<forall>i\<in>set invs. numbered i \<and> found (invoiceQuery t i) Invoices w"
  shows "\<exists>mp'. tryEach (restoreInvoice t Merge) invoiceFailed invs (mp, r) w =
           ((mp', r\<lparr>skipped := (skipped r)
               \<lparr>skipped_invoices := skipped_invoices (skipped r) + length invs\<rparr>\<rparr>), w)"
  using assms(2)
proof (induction invs arbitrary: mp r)
  case Nil
  then show ?case by simp
next
  case (Cons i invs)
  have n: "truthy (invoiceNumberOf i)" using Cons.prems by (simp add: numbered_def)
  have "found (invoiceQuery t i) Invoices w" using Cons.prems by simp
  then obtain existing where
    f: "find (matches (ownedBy t @ [([''details'', ''invoiceNumber''], invoiceNumberOf i)]))
          (colls w Invoices) = Some existing"
    by (auto simp: found_iff invoiceQuery_def)
  define r1 where "r1 = r\<lparr>skipped := (skipped r)
      \<lparr>skipped_invoices := Suc (skipped_invoices (skipped r))\<rparr>\<rparr>"
  define mp1 where "mp1 = mapper_set (oldIdOf i) (getField existing ''_id'') mp"
  have step: "restoreInvoice t Merge i (mp, r) w = (Inr (mp1, r1), w)"
    by (simp add: restoreInvoice_def n findOne_no_faults [OF assms(1)] f r1_def mp1_def)
  have others: "\<forall>i\<in>set invs. numbered i \<and> found (invoiceQuery t i) Invoices w"
    using Cons.prems by simp
  obtain mp' where rest:
    "tryEach (restoreInvoice t Merge) invoiceFailed invs (mp1, r1) w =
     ((mp', r1\<lparr>skipped := (skipped r1)
         \<lparr>skipped_invoices := skipped_invoices (skipped r1) + length invs\<rparr>\<rparr>), w)"
    using Cons.IH [OF others, of mp1 r1] by blast
  have "r1\<lparr>skipped := (skipped r1)
         \<lparr>skipped_invoices := skipped_invoices (skipped r1) + length invs\<rparr>\<rparr>
      = r\<lparr>skipped := (skipped r)
               \<lparr>skipped_invoices := skipped_invoices (skipped r) + length (i # invs)\<rparr>\<rparr>"
    by (simp add: r1_def)
  then show ?case using step rest by simp
qed

section \<open>Statements and documents are inserted every time\<close>

lemma plainClientEmail_no_throw:
  "plainClientEmail s \<Longrightarrow> \<exists>v. newClientIdOf em s = Inr v"
  by (auto simp: plainClientEmail_def newClientIdOf_def opt_toLowerCase_def
      split: jsvalue.splits)

lemma insert_statements:
  assumes "list_all plainClientEmail sts"
  shows "faults w = [] \<Longrightarrow>
     \<exists>w'. tryEach (restoreStatement t em) h sts r w =
            (r\<lparr>restored := (restored r)
                 \<lparr>statements := statements (restored r) + length sts\<rparr>\<rparr>, w')
         \<and> faults w' = []
         \<and> length (colls w' Statements) = length (colls w Statements) + length sts"
  using assms
proof (induction sts arbitrary: r w)
  case Nil
  then show ?case by simp
next
  case (Cons s sts)
  obtain v where v: "newClientIdOf em s = Inr v"
    using Cons.prems(2) plainClientEmail_no_throw by auto
  define r1 where "r1 = r\<lparr>restored := (restored r)
      \<lparr>statements := Suc (statements (restored r))\<rparr>\<rparr>"
  define w1 where "w1 = snd (insertOne Statements (newStatement t s v w) w)"
  have ins: "insertOne Statements (newStatement t s v w) w = (Inr (JObjectId (nextOid w)), w1)"
    and f1: "faults w1 = []"
    and l1: "length (colls w1 Statements) = Suc (length (colls w Statements))"
    using Cons.prems(1) by (simp_all add: w1_def insertOne_no_faults new_records_owned)
  have step: "restoreStatement t em s r w = (Inr r1, w1)"
    by (simp add: restoreStatement_def v ins r1_def)
  have tl: "list_all plainClientEmail sts" using Cons.prems(2) by simp
  obtain w' where rest: "tryEach (restoreStatement t em) h sts r1 w1 =
            (r1\<lparr>restored := (restored r1)
                 \<lparr>statements := statements (restored r1) + length sts\<rparr>\<rparr>, w')"
    and f': "faults w' = []"
    and l': "length (colls w' Statements) = length (colls w1 Statements) + length sts"
    using Cons.IH [OF f1 tl, of r1] by blast
  have "r1\<lparr>restored := (restored r1)\<lparr>statements := statements (restored r1) + length sts\<rparr>\<rparr>
      = r\<lparr>restored := (restored r)
                 \<lparr>statements := statements (restored r) + length (s # sts)\<rparr>\<rparr>"
    by (simp add: r1_def)
  then show ?case using step rest f' l' l1 by simp
qed

lemma insert_documents:
  "faults w = [] \<Longrightarrow>
     \<exists>w'. tryEach (restoreDocument t mp) h ds r w =
            (r\<lparr>restored := (restored r)
                 \<lparr>documents := documents (restored r) + length ds\<rparr>\<rparr>, w')
         \<and> faults w' = []
         \<and> length (colls w' Documents) = length (colls w Documents) + length ds"
proof (induction ds arbitrary: r w)
  case Nil
  then show ?case by simp
next
  case (Cons d ds)
  obtain a wa where ra: "remapRef mp (getField d ''invoiceId'') w = (a, wa)"
    by (metis prod.exhaust)
  obtain b wb where rb: "remapRef mp (getField d ''parentDocumentId'') wa = (b, wb)"
    by (metis prod.exhaust)
  have fb: "faults wb = []"
    using later_remapRef [OF ra] later_remapRef [OF rb] Cons.prems by (simp add: later_def)
  have cb: "colls wb = colls w"
    using colls_remapRef' [OF ra] colls_remapRef' [OF rb] by simp
  define r1 where "r1 = r\<lparr>restored := (restored r)
      \<lparr>documents := Suc (documents (restored r))\<rparr>\<rparr>"
  define w1 where "w1 = snd (insertOne Documents (newDocument t d a b wb) wb)"
  have ins: "insertOne Documents (newDocument t d a b wb) wb = (Inr (JObjectId (nextOid wb)), w1)"
    and f1: "faults w1 = []"
    and l1: "length (colls w1 Documents) = Suc (length (colls w Documents))"
    using fb cb by (simp_all add: w1_def insertOne_no_faults new_records_owned)
  have step: "restoreDocument t mp d r w = (Inr r1, w1)"
    by (simp add: restoreDocument_def ra rb ins r1_def)
  obtain w' where rest: "tryEach (restoreDocument t mp) h ds r1 w1 =
            (r1\<lparr>restored := (restored r1)
                 \<lparr>documents := documents (restored r1) + length ds\<rparr>\<rparr>, w')"
    and f': "faults w' = []"
    and l': "length (colls w' Documents) = length (colls w1 Documents) + length ds"
    using Cons.IH [OF f1, of r1] by blast
  have "r1\<lparr>restored := (restored r1)\<lparr>documents := documents (restored r1) + length ds\<rparr>\<rparr>
      = r\<lparr>restored := (restored r)
                 \<lparr>documents := documents (restored r) + length (d # ds)\<rparr>\<rparr>"
    by (simp add: r1_def)
  then show ?case using step rest f' l' l1 by simp
qed

section \<open>The first merge run leaves every key in the store\<close>

lemma tryEach_establishes:
  assumes keep: "\<And>x st w r w'. body x st w = (r, w') \<Longrightarrow> G w \<Longrightarrow>
                   G w' \<and> (\<forall>y. Q y w \<longrightarrow> Q y w')"
    and est: "\<And>x st w r w'. x \<in> set xs \<Longrightarrow> G w \<Longrightarrow> body x st w = (r, w') \<Longrightarrow> Q x w'"
    and "G w" and "tryEach body h xs st w = (st', w')"
  shows "G w' \<and> (\<forall>y. Q y w \<longrightarrow> Q y w') \<and> (\<forall>x\<in>set xs. Q x w')"
  using assms(2-)
proof (induction xs arbitrary: st w)
  case Nil
  then show ?case by simp
next
  case (Cons x xs)
  obtain r w1 where b: "body x st w = (r, w1)" by (cases "body x st w")
  define st1 where "st1 = (case r of Inl e \<Rightarrow> h e st | Inr s \<Rightarrow> s)"
  have step: "tryEach body h xs st1 w1 = (st', w')"
    using Cons.prems(3) b by (simp add: st1_def split: sum.splits)
  have k1: "G w1 \<and> (\<forall>y. Q y w \<longrightarrow> Q y w1)" using keep [OF b Cons.prems(2)] .
  have q1: "Q x w1" by (rule Cons.prems(1) [OF _ Cons.prems(2) b]) simp
  have est': "\<And>y st w r w'. y \<in> set xs \<Longrightarrow> G w \<Longrightarrow> body y st w = (r, w') \<Longrightarrow> Q y w'"
    using Cons.prems(1) by (meson list.set_intros(2))
  have ih: "G w' \<and> (\<forall>y. Q y w1 \<longrightarrow> Q y w') \<and> (\<forall>x\<in>set xs. Q x w')"
  proof (rule Cons.IH)
    show "\<And>y st w r w'. y \<in> set xs \<Longrightarrow> G w \<Longrightarrow> body y st w = (r, w') \<Longrightarrow> Q y w'"
      by (rule est')
    show "G w1" using k1 by simp
    show "tryEach body h xs st1 w1 = (st', w')" by (rule step)
  qed
  show ?case using ih k1 q1 by auto
qed

lemma getPath_field: "getPath (JObj d) [k] = map_of d k"
  by (simp split: option.splits)

lemma getField_Some: "getField d k = v \<Longrightarrow> v \<noteq> JUndefined \<Longrightarrow> map_of d k = Some v"
  by (auto simp: getField_def split: option.splits)

lemma found_mono: "found q k w \<Longrightarrow> set (colls w k) \<subseteq> set (colls w' k) \<Longrightarrow> found q k w'"
  by (auto simp: found_def list_ex_iff)

lemma found_cong: "colls w' k = colls w k \<Longrightarrow> found q k w' = found q k w"
  by (simp add: found_def)

lemma restoreClient_grows:
  assumes "restoreClient t mode c st w = (r, w')"
  shows "later w w' \<and> set (colls w Clients) \<subseteq> set (colls w' Clients)"
  by (rule restoreClient_rel
      [where R = "\<lambda>w w'. later w w' \<and> set (colls w Clients) \<subseteq> set (colls w' Clients)",
        OF _ _ _ _ assms])
    (auto simp: later_refl colls_findOne
      intro: later_trans later_findOne later_insertOne dest: grows_insertOne)

lemma restoreInvoice_grows:
  assumes "restoreInvoice t mode c st w = (r, w')"
  shows "later w w' \<and> set (colls w Invoices) \<subseteq> set (colls w' Invoices)"
  by (rule restoreInvoice_rel
      [where R = "\<lambda>w w'. later w w' \<and> set (colls w Invoices) \<subseteq> set (colls w' Invoices)",
        OF _ _ _ _ assms])
    (auto simp: later_refl colls_findOne
      intro: later_trans later_findOne later_insertOne dest: grows_insertOne)

lemma client_key_stored:
  assumes nf: "faults w = []" and lc: "lowerCaseEmail c"
    and run: "restoreClient t Merge c st w = (r, w')"
  shows "found (clientQuery t c) Clients w'"
proof -
  obtain e where e: "getField c ''email'' = JStr e" and low: "toLowerCase e = e"
    using lc by (auto simp: lowerCaseEmail_def split: jsvalue.splits)
  obtain em mp res where st: "st = (em, mp, res)" by (cases st)
  have q: "clientQuery t c = ownedBy t @ [([''email''], JStr e)]"
    by (simp add: clientQuery_def e low)
  show ?thesis
  proof (cases "find (matches (ownedBy t @ [([''email''], JStr e)])) (colls w Clients)")
    case (Some existing)
    then have "w' = w"
      using run by (simp add: restoreClient_def st e low findOne_no_faults [OF nf])
    then show ?thesis using Some by (simp add: found_iff q)
  next
    case None
    have m: "map_of c ''email'' = Some (JStr e)" using e by (rule getField_Some) simp
    have "matches (ownedBy t @ [([''email''], JStr e)])
            ((''_id'', JObjectId (nextOid w)) # newClient t c w)"
      by (simp add: matches_def ownedBy_def getPath_field fieldMatches_def newClient_def
          map_of_withTimestamps update_conv' map_of_omit m)
    moreover have "colls w' Clients = colls w Clients
        @ [(''_id'', JObjectId (nextOid w)) # newClient t c w]"
      using run None
      by (auto simp: restoreClient_def st e low findOne_no_faults [OF nf]
          insertOne_no_faults [OF nf] new_records_owned)
    ultimately show ?thesis by (auto simp: found_def q list_ex_iff)
  qed
qed

lemma truthy_invoiceNumber:
  assumes "truthy (invoiceNumberOf i)"
  shows "\<exists>al. map_of i ''details'' = Some (JObj al)
          \<and> map_of al ''invoiceNumber'' = Some (invoiceNumberOf i)"
proof -
  have nn: "\<not> nullish (getField i ''details'')"
    and tr: "truthy (getProp (getField i ''details'') ''invoiceNumber'')"
    using assms by (auto simp: invoiceNumberOf_def js_or_def split: if_splits)
  then obtain al where al: "getField i ''details'' = JObj al"
    by (cases "getField i ''details''") (auto simp: getProp_def)
  have v: "invoiceNumberOf i = getField al ''invoiceNumber''"
    using tr al by (simp add: invoiceNumberOf_def js_or_def getProp_def)
  have "getField al ''invoiceNumber'' \<noteq> JUndefined" using tr al by (auto simp: getProp_def)
  then have "map_of al ''invoiceNumber'' = Some (invoiceNumberOf i)"
    unfolding v by (auto simp: getField_def split: option.splits)
  moreover have "map_of i ''details'' = Some (JObj al)" using al by (rule getField_Some) simp
  ultimately show ?thesis by blast
qed

lemma invoice_key_stored:
  assumes nf: "faults w = []" and n: "numbered i"
    and run: "restoreInvoice t Merge i st w = (r, w')"
  shows "found (invoiceQuery t i) Invoices w'"
proof -
  have tr: "truthy (invoiceNumberOf i)" using n by (simp add: numbered_def)
  obtain al where d: "map_of i ''details'' = Some (JObj al)"
    and num: "map_of al ''invoiceNumber'' = Some (invoiceNumberOf i)"
    using truthy_invoiceNumber [OF tr] by blast
  obtain mp res where st: "st = (mp, res)" by (cases st)
  show ?thesis
  proof (cases "find (matches (invoiceQuery t i)) (colls w Invoices)")
    case (Some existing)
    then have "w' = w"
      using run by (simp add: restoreInvoice_def st tr findOne_no_faults [OF nf] invoiceQuery_def)
    then show ?thesis using Some by (simp add: found_iff)
  next
    case None
    have "matches (invoiceQuery t i) ((''_id'', JObjectId (nextOid w)) # newInvoice t i w)"
      by (simp add: matches_def invoiceQuery_def ownedBy_def fieldMatches_def newInvoice_def
          map_of_withTimestamps update_conv' map_of_omit d num)
    moreover have "colls w' Invoices = colls w Invoices
        @ [(''_id'', JObjectId (nextOid w)) # newInvoice t i w]"
      using run None
      by (auto simp: restoreInvoice_def st tr findOne_no_faults [OF nf] invoiceQuery_def
          insertOne_no_faults [OF nf] new_records_owned)
    ultimately show ?thesis by (auto simp: found_def list_ex_iff)
  qed
qed

lemma clients_keys_stored:
  assumes "faults w = []" and "list_all lowerCaseEmail cs"
    and run: "restoreClients cs t Merge mp result w = (st, w')"
  shows "\<forall>c\<in>set cs. found (clientQuery t c) Clients w'"
proof -
  have "faults w' = [] \<and>
      (\<forall>y. found (clientQuery t y) Clients w \<longrightarrow> found (clientQuery t y) Clients w') \<and>
      (\<forall>x\<in>set cs. found (clientQuery t x) Clients w')"
  proof (rule tryEach_establishes
      [where G = "\<lambda>w. faults w = []" and Q = "\<lambda>c w. found (clientQuery t c) Clients w"
        and body = "restoreClient t Merge" and h = clientFailed])
    show "tryEach (restoreClient t Merge) clientFailed cs (Map.empty, mp, result) w = (st, w')"
      using run by (simp add: restoreClients_def)
    show "faults w = []" by (rule assms(1))
    show "\<And>x st w r w'. restoreClient t Merge x st w = (r, w') \<Longrightarrow> faults w = [] \<Longrightarrow>
        faults w' = [] \<and>
        (\<forall>y. found (clientQuery t y) Clients w \<longrightarrow> found (clientQuery t y) Clients w')"
      using restoreClient_grows found_mono later_faults by metis
    show "\<And>x st w r w'. x \<in> set cs \<Longrightarrow> faults w = [] \<Longrightarrow>
        restoreClient t Merge x st w = (r, w') \<Longrightarrow> found (clientQuery t x) Clients w'"
      using assms(2) client_key_stored by (metis list_all_iff)
  qed
  then show ?thesis by blast
qed

lemma invoices_keys_stored:
  assumes "faults w = []" and "list_all numbered invs"
    and run: "restoreInvoices invs t Merge mp em result w = (st, w')"
  shows "\<forall>i\<in>set invs. found (invoiceQuery t i) Invoices w'"
proof -
  have "faults w' = [] \<and>
      (\<forall>y. found (invoiceQuery t y) Invoices w \<longrightarrow> found (invoiceQuery t y) Invoices w') \<and>
      (\<forall>x\<in>set invs. found (invoiceQuery t x) Invoices w')"
  proof (rule tryEach_establishes
      [where G = "\<lambda>w. faults w = []" and Q = "\<lambda>c w. found (invoiceQuery t c) Invoices w"
        and body = "restoreInvoice t Merge" and h = invoiceFailed])
    show "tryEach (restoreInvoice t Merge) invoiceFailed invs (mp, result) w = (st, w')"
      using run by (simp add: restoreInvoices_def)
    show "faults w = []" by (rule assms(1))
    show "\<And>x st w r w'. restoreInvoice t Merge x st w = (r, w') \<Longrightarrow> faults w = [] \<Longrightarrow>
        faults w' = [] \<and>
        (\<forall>y. found (invoiceQuery t y) Invoices w \<longrightarrow> found (invoiceQuery t y) Invoices w')"
      using restoreInvoice_grows found_mono later_faults by metis
    show "\<And>x st w r w'. x \<in> set invs \<Longrightarrow> faults w = [] \<Longrightarrow>
        restoreInvoice t Merge x st w = (r, w') \<Longrightarrow> found (invoiceQuery t x) Invoices w'"
      using assms(2) invoice_key_stored by (metis list_all_iff)
  qed
  then show ?thesis by blast
qed

section \<open>Two merge runs\<close>

lemma restorePreferences_counts:
  "restorePreferences p t mode r w = (r', w') \<Longrightarrow>
     clients (restored r') = clients (restored r) \<and> invoices (restored r') = invoices (restored r)
     \<and> statements (restored r') = statements (restored r)
     \<and> documents (restored r') = documents (restored r) \<and> skipped r' = skipped r"
  by (auto simp: restorePreferences_def pushError_def
      split: prod.splits sum.splits option.splits if_splits)

lemma restoreDefaults_counts:
  assumes "restoreDefaults ds t mode r w = (r', w')"
  shows "clients (restored r') = clients (restored r) \<and> invoices (restored r') = invoices (restored r)
     \<and> statements (restored r') = statements (restored r)
     \<and> documents (restored r') = documents (restored r) \<and> skipped r' = skipped r"
proof -
  have "(\<lambda>st v. clients (restored st) = clients (restored r)
          \<and> invoices (restored st) = invoices (restored r)
          \<and> statements (restored st) = statements (restored r)
          \<and> documents (restored st) = documents (restored r) \<and> skipped st = skipped r)
      (fst (tryEach (restoreDefault t mode) (pushError ''Error restoring default: '') ds r w))
      (snd (tryEach (restoreDefault t mode) (pushError ''Error restoring default: '') ds r w))"
    by (rule tryEach_invariant)
      (auto simp: restoreDefault_def pushError_def
        split: prod.splits sum.splits option.splits if_splits)
  then show ?thesis using assms by (simp add: restoreDefaults_def)
qed

lemma first_merge_run:
  assumes nf: "faults w = []"
    and cs: "list_all lowerCaseEmail (data_clients (data backup))"
    and invs: "list_all numbered (data_invoices (data backup))"
    and run: "restoreStages backup t Merge mp result w = (r, w')"
  shows "faults w' = []
     \<and> (\<forall>c\<in>set (data_clients (data backup)). found (clientQuery t c) Clients w')
     \<and> (\<forall>i\<in>set (data_invoices (data backup)). found (invoiceQuery t i) Invoices w')"
proof -
  obtain em mp1 r1 w1 where 1:
    "restoreClients (data_clients (data backup)) t Merge mp result w = ((em, mp1, r1), w1)"
    by (metis prod.exhaust)
  obtain mp2 r2 w2 where 2:
    "restoreInvoices (data_invoices (data backup)) t Merge mp1 em r1 w1 = ((mp2, r2), w2)"
    by (metis prod.exhaust)
  obtain r3 w3 where 3:
    "restoreStatements (data_statements (data backup)) t Merge mp2 em r2 w2 = (r3, w3)"
    by (metis prod.exhaust)
  obtain r4 w4 where 4:
    "restoreDocuments (data_documents (data backup)) t Merge mp2 r3 w3 = (r4, w4)"
    by (metis prod.exhaust)
  obtain r5 w5 where 5:
    "restorePreferences (data_preferences (data backup)) t Merge r4 w4 = (r5, w5)"
    by (metis prod.exhaust)
  have 6: "restoreDefaults (data_defaults (data backup)) t Merge r5 w5 = (r, w')"
    using run by (simp add: restoreStages_def 1 2 3 4 5)
  note t1 = restoreClients_touches [OF 1] and t2 = restoreInvoices_touches [OF 2]
    and t3 = restoreStatements_touches [OF 3] and t4 = restoreDocuments_touches [OF 4]
    and t5 = restorePreferences_touches [OF 5] and t6 = restoreDefaults_touches [OF 6]
  have f1: "faults w1 = []" using t1 nf by (rule touchesOnly_faults)
  have f2: "faults w2 = []" using t2 f1 by (rule touchesOnly_faults)
  have f3: "faults w3 = []" using t3 f2 by (rule touchesOnly_faults)
  have f4: "faults w4 = []" using t4 f3 by (rule touchesOnly_faults)
  have f5: "faults w5 = []" using t5 f4 by (rule touchesOnly_faults)
  have f6: "faults w' = []" using t6 f5 by (rule touchesOnly_faults)
  have c1: "\<forall>c\<in>set (data_clients (data backup)). found (clientQuery t c) Clients w1"
    using nf cs 1 by (rule clients_keys_stored)
  have i2: "\<forall>i\<in>set (data_invoices (data backup)). found (invoiceQuery t i) Invoices w2"
    using f1 invs 2 by (rule invoices_keys_stored)
  have "colls w' Clients = colls w1 Clients"
    using touchesOnly_colls [OF t2, of Clients] touchesOnly_colls [OF t3, of Clients]
      touchesOnly_colls [OF t4, of Clients] touchesOnly_colls [OF t5, of Clients]
      touchesOnly_colls [OF t6, of Clients]
    by simp
  moreover have "colls w' Invoices = colls w2 Invoices"
    using touchesOnly_colls [OF t3, of Invoices]
      touchesOnly_colls [OF t4, of Invoices] touchesOnly_colls [OF t5, of Invoices]
      touchesOnly_colls [OF t6, of Invoices]
    by simp
  ultimately show ?thesis using f6 c1 i2 by (simp add: found_def)
qed

lemma second_merge_run:
  assumes nf: "faults w = []"
    and cs: "\<forall>c\<in>set (data_clients (data backup)).
               (\<exists>e. getField c ''email'' = JStr e) \<and> found (clientQuery t c) Clients w"
    and invs: "\<forall>i\<in>set (data_invoices (data backup)).
               numbered i \<and> found (invoiceQuery t i) Invoices w"
    and sts: "list_all plainClientEmail (data_statements (data backup))"
    and run: "restoreStages backup t Merge mp initialResult w = (r, w')"
  shows "clients (restored r) = 0 \<and> invoices (restored r) = 0
     \<and> skipped_clients (skipped r) = length (data_clients (data backup))
     \<and> skipped_invoices (skipped r) = length (data_invoices (data backup))
     \<and> statements (restored r) = length (data_statements (data backup))
     \<and> documents (restored r) = length (data_documents (data backup))
     \<and> length (colls w' Statements)
         = length (colls w Statements) + length (data_statements (data backup))
     \<and> length (colls w' Documents)
         = length (colls w Documents) + length (data_documents (data backup))
     \<and> colls w' Clients = colls w Clients \<and> colls w' Invoices = colls w Invoices"
proof -
  define rA where "rA = initialResult\<lparr>skipped := (skipped initialResult)
      \<lparr>skipped_clients := skipped_clients (skipped initialResult)
          + length (data_clients (data backup))\<rparr>\<rparr>"
  obtain em mp1 where 1:
    "restoreClients (data_clients (data backup)) t Merge mp initialResult w = ((em, mp1, rA), w)"
    using skip_clients [OF nf cs, of Map.empty mp initialResult]
    by (auto simp: restoreClients_def rA_def)
  define rB where "rB = rA\<lparr>skipped := (skipped rA)
      \<lparr>skipped_invoices := skipped_invoices (skipped rA)
          + length (data_invoices (data backup))\<rparr>\<rparr>"
  obtain mp2 where 2:
    "restoreInvoices (data_invoices (data backup)) t Merge mp1 em rA w = ((mp2, rB), w)"
    using skip_invoices [OF nf invs, of mp1 rA] by (auto simp: restoreInvoices_def rB_def)
  define rC where "rC = rB\<lparr>restored := (restored rB)
      \<lparr>statements := statements (restored rB) + length (data_statements (data backup))\<rparr>\<rparr>"
  obtain w3 where 3:
    "restoreStatements (data_statements (data backup)) t Merge mp2 em rB w = (rC, w3)"
    and f3: "faults w3 = []"
    and l3: "length (colls w3 Statements)
        = length (colls w Statements) + length (data_statements (data backup))"
    using insert_statements [OF sts nf, of t em "pushError ''Error restoring statement: ''" rB]
    by (auto simp: restoreStatements_def rC_def)
  define rD where "rD = rC\<lparr>restored := (restored rC)
      \<lparr>documents := documents (restored rC) + length (data_documents (data backup))\<rparr>\<rparr>"
  obtain w4 where 4:
    "restoreDocuments (data_documents (data backup)) t Merge mp2 rC w3 = (rD, w4)"
    and f4: "faults w4 = []"
    and l4: "length (colls w4 Documents)
        = length (colls w3 Documents) + length (data_documents (data backup))"
    using insert_documents [OF f3, of t mp2 "pushError ''Error restoring document: ''"
        "data_documents (data backup)" rC]
    by (auto simp: restoreDocuments_def rD_def)
  obtain r5 w5 where 5:
    "restorePreferences (data_preferences (data backup)) t Merge rD w4 = (r5, w5)"
    by (metis prod.exhaust)
  have 6: "restoreDefaults (data_defaults (data backup)) t Merge r5 w5 = (r, w')"
    using run by (simp add: restoreStages_def 1 2 3 4 5)
  note t3 = restoreStatements_touches [OF 3] and t4 = restoreDocuments_touches [OF 4]
    and t5 = restorePreferences_touches [OF 5] and t6 = restoreDefaults_touches [OF 6]
  have cl: "colls w' Clients = colls w Clients"
    using touchesOnly_colls [OF t3, of Clients]
      touchesOnly_colls [OF t4, of Clients] touchesOnly_colls [OF t5, of Clients]
      touchesOnly_colls [OF t6, of Clients]
    by simp
  have inv: "colls w' Invoices = colls w Invoices"
    using touchesOnly_colls [OF t3, of Invoices]
      touchesOnly_colls [OF t4, of Invoices] touchesOnly_colls [OF t5, of Invoices]
      touchesOnly_colls [OF t6, of Invoices]
    by simp
  have st: "colls w' Statements = colls w3 Statements"
    using touchesOnly_colls [OF t4, of Statements] touchesOnly_colls [OF t5, of Statements]
      touchesOnly_colls [OF t6, of Statements]
    by simp
  have doc: "colls w' Documents = colls w4 Documents" "colls w3 Documents = colls w Documents"
    using touchesOnly_colls [OF t3, of Documents] touchesOnly_colls [OF t5, of Documents]
      touchesOnly_colls [OF t6, of Documents]
    by simp_all
  have counts: "clients (restored r) = clients (restored rD)"
    "invoices (restored r) = invoices (restored rD)"
    "statements (restored r) = statements (restored rD)"
    "documents (restored r) = documents (restored rD)" "skipped r = skipped rD"
    using restorePreferences_counts [OF 5] restoreDefaults_counts [OF 6] by simp_all
  have "clients (restored rD) = 0" "invoices (restored rD) = 0"
    "statements (restored rD) = length (data_statements (data backup))"
    "documents (restored rD) = length (data_documents (data backup))"
    "skipped_clients (skipped rD) = length (data_clients (data backup))"
    "skipped_invoices (skipped rD) = length (data_invoices (data backup))"
    by (simp_all add: rD_def rC_def rB_def rA_def initialResult_def zeroCounts_def)
  then show ?thesis using counts cl inv st doc l3 l4 by simp
qed

lemma merge_is_stages:
  "newObjectIdFrom tid = Inr t \<Longrightarrow>
   restoreUserData backup tid Merge w =
     (Inr (fst (restoreStages backup t Merge Map.empty initialResult w)),
      snd (restoreStages backup t Merge Map.empty initialResult w))"
  by (simp add: restoreUserData_def restoreTry_def split: prod.splits)

lemma lowerCaseEmail_string: "lowerCaseEmail c \<Longrightarrow> \<exists>e. getField c ''email'' = JStr e"
  by (cases "getField c ''email''") (auto simp: lowerCaseEmail_def)

text \<open>
  Claim C2, as the code has it. The snapshot's clients all have a string
  \<^verbatim>\<open>email\<close> in lower case, its invoices all have an invoice number that is not
  empty, its statements have a \<^verbatim>\<open>clientEmail\<close> that is a string or is missing, and
  no operation of the store fails. Then two merge restores in a row, from that snapshot
  and for the same target, both return a result, and the second one restores no client
  and no invoice: it counts every client and every invoice of the snapshot as skipped and
  leaves the two collections as they were. It inserts every statement and every document
  of the snapshot again: it counts them all as restored, and the two collections grow by
  as many records.
\<close>

theorem merge_twice:
  assumes valid: "newObjectIdFrom tid = Inr t"
    and nf: "faults w = []"
    and cs: "list_all lowerCaseEmail (data_clients (data backup))"
    and invs: "list_all numbered (data_invoices (data backup))"
    and sts: "list_all plainClientEmail (data_statements (data backup))"
  shows "\<exists>r1 w1 r2 w2.
       restoreUserData backup tid Merge w = (Inr r1, w1)
     \<and> restoreUserData backup tid Merge w1 = (Inr r2, w2)
     \<and> clients (restored r2) = 0 \<and> invoices (restored r2) = 0
     \<and> skipped_clients (skipped r2) = length (data_clients (data backup))
     \<and> skipped_invoices (skipped r2) = length (data_invoices (data backup))
     \<and> colls w2 Clients = colls w1 Clients \<and> colls w2 Invoices = colls w1 Invoices
     \<and> statements (restored r2) = length (data_statements (data backup))
     \<and> documents (restored r2) = length (data_documents (data backup))
     \<and> length (colls w2 Statements)
         = length (colls w1 Statements) + length (data_statements (data backup))
     \<and> length (colls w2 Documents)
         = length (colls w1 Documents) + length (data_documents (data backup))"
proof -
  obtain r1 w1 where s1: "restoreStages backup t Merge Map.empty initialResult w = (r1, w1)"
    by (metis prod.exhaust)
  obtain r2 w2 where s2: "restoreStages backup t Merge Map.empty initialResult w1 = (r2, w2)"
    by (metis prod.exhaust)
  note first = first_merge_run [OF nf cs invs s1]
  have f1: "faults w1 = []" using first by simp
  have typed: "\<forall>c\<in>set (data_clients (data backup)). \<exists>e. getField c ''email'' = JStr e"
    using cs lowerCaseEmail_string by (auto simp: list_all_iff)
  have cs1: "\<forall>c\<in>set (data_clients (data backup)).
               (\<exists>e. getField c ''email'' = JStr e) \<and> found (clientQuery t c) Clients w1"
    using first typed by blast
  have invs1: "\<forall>i\<in>set (data_invoices (data backup)).
               numbered i \<and> found (invoiceQuery t i) Invoices w1"
    using first invs by (auto simp: list_all_iff)
  note second = second_merge_run [OF f1 cs1 invs1 sts s2]
  have "restoreUserData backup tid Merge w = (Inr r1, w1)"
    and "restoreUserData backup tid Merge w1 = (Inr r2, w2)"
    using s1 s2 by (simp_all add: merge_is_stages [OF valid])
  then show ?thesis using second by blast
qed

theorem merge_twice_witness:
  "\<exists>r1 w1 r2 w2.
       restoreUserData strangerBackup targetId Merge emptyWorld = (Inr r1, w1)
     \<and> restoreUserData strangerBackup targetId Merge w1 = (Inr r2, w2)
     \<and> clients (restored r2) = 0 \<and> invoices (restored r2) = 0
     \<and> skipped_clients (skipped r2) = 1 \<and> skipped_invoices (skipped r2) = 1
     \<and> statements (restored r2) = 1 \<and> documents (restored r2) = 1
     \<and> length (colls w2 Statements) = length (colls w1 Statements) + 1
     \<and> length (colls w2 Documents) = length (colls w1 Documents) + 1"
proof -
  have nf: "faults emptyWorld = []" by (simp add: emptyWorld_def)
  have cs: "list_all lowerCaseEmail (data_clients (data strangerBackup))"
    by (simp add: strangerBackup_def annClient_def lowerCaseEmail_def getField_def
        toLowerCase_def lowerChar_def)
  have invs: "list_all numbered (data_invoices (data strangerBackup))"
    by (simp add: strangerBackup_def firstInvoice_def numbered_def invoiceNumberOf_def
        getField_def getProp_def js_or_def)
  have sts: "list_all plainClientEmail (data_statements (data strangerBackup))"
    by (simp add: strangerBackup_def ghostStatement_def plainClientEmail_def getField_def)
  have len: "length (data_clients (data strangerBackup)) = 1"
    "length (data_invoices (data strangerBackup)) = 1"
    "length (data_statements (data strangerBackup)) = 1"
    "length (data_documents (data strangerBackup)) = 1"
    by (simp_all add: strangerBackup_def)
  show ?thesis
    using merge_twice [OF targetId_valid nf cs invs sts] unfolding len by blast
qed

text \<open>
  The claim as the specification states it does not hold: an invoice without an invoice
  number is not looked up (the test \<^verbatim>\<open>mode === "merge" && invoiceNumber\<close>), so
  the second merge run inserts it again and counts it as restored, not as skipped.
\<close>

theorem merge_twice_counterexample:
  "fst (restoreUserData draftBackup targetId Merge
         (snd (restoreUserData draftBackup targetId Merge emptyWorld)))
     = Inr (initialResult\<lparr>restored := zeroCounts\<lparr>invoices := 1\<rparr>\<rparr>)"
  by code_simp

text \<open>
  The key of a client is compared in lower case with the address as it is stored: a
  client whose address has capital letters is not recognised by the second run.
\<close>

lemma capitals_client_restored_again:
  "fst (restoreUserData capitalsBackup targetId Merge
         (snd (restoreUserData capitalsBackup targetId Merge emptyWorld)))
     = Inr (initialResult\<lparr>restored := zeroCounts\<lparr>clients := 1\<rparr>\<rparr>)"
  by code_simp

section \<open>Capture\<close>

lemma findToArray_no_faults:
  "faults w = [] \<Longrightarrow> findToArray c q w = (Inr (filter (matches q) (colls w c)), w)"
  by (simp add: findToArray_def attempt_no_faults)

lemma find_in_set: "find P xs = Some x \<Longrightarrow> x \<in> set xs \<and> P x"
  by (auto simp: find_Some_iff)

lemma findOne_member: "findOne c q w = (Inr (Some d), w') \<Longrightarrow> d \<in> set (colls w c)"
  by (auto simp: findOne_def attempt_def split: list.splits bool.splits dest: find_in_set)

lemma collect_returns:
  assumes "collectUserData uid w = (Inr snap, w')"
  shows "\<exists>user \<in> set (colls w Users). data_user (data snap) = omit [''password''] user"
    and "countsMatch snap"
  using assms unfolding collectUserData_def
  by (auto simp: countsMatch_def split: sum.splits prod.splits option.splits
      dest!: findOne_member)

lemma collect_no_faults:
  assumes "faults w = []" and "newObjectIdFrom uid = Inr i"
  shows "case find (matches [([''_id''], JObjectId i)]) (colls w Users) of
           None \<Rightarrow> collectUserData uid w = (Inl (Error ''User not found''), w)
         | Some user \<Rightarrow>
             (\<exists>snap. collectUserData uid w = (Inr snap, w)
                \<and> data_user (data snap) = omit [''password''] user)"
  using assms
  by (simp add: collectUserData_def findOne_no_faults findToArray_no_faults split: option.splits)

text \<open>
  Claim C7. Whenever \<^verbatim>\<open>collectUserData\<close> returns a snapshot, the profile in it
  has no \<^verbatim>\<open>password\<close> field, whatever the stored profile holds. For a well-formed
  owner identifier and a store that does not fail, it returns a snapshot when the store
  has a profile with that \<^verbatim>\<open>_id\<close>, and fails with the error
  \<^verbatim>\<open>User not found\<close> when it has none.
\<close>

theorem capture_strips_password:
  assumes "newObjectIdFrom uid = Inr i"
  shows "(\<forall>snap w'. collectUserData uid w = (Inr snap, w') \<longrightarrow>
            map_of (data_user (data snap)) ''password'' = None)
     \<and> (faults w = [] \<longrightarrow>
          (if list_ex (matches [([''_id''], JObjectId i)]) (colls w Users)
           then \<exists>snap. collectUserData uid w = (Inr snap, w)
                  \<and> map_of (data_user (data snap)) ''password'' = None
           else collectUserData uid w = (Inl (Error ''User not found''), w)))"
proof (intro conjI allI impI)
  fix snap w'
  assume "collectUserData uid w = (Inr snap, w')"
  from collect_returns(1) [OF this]
  show "map_of (data_user (data snap)) ''password'' = None"
    by (auto simp: map_of_omit)
next
  assume nf: "faults w = []"
  show "if list_ex (matches [([''_id''], JObjectId i)]) (colls w Users)
           then \<exists>snap. collectUserData uid w = (Inr snap, w)
                  \<and> map_of (data_user (data snap)) ''password'' = None
           else collectUserData uid w = (Inl (Error ''User not found''), w)"
    using collect_no_faults [OF nf assms]
    by (cases "find (matches [([''_id''], JObjectId i)]) (colls w Users)")
      (auto simp: find_None_iff list_ex_iff map_of_omit dest: find_in_set)
qed

theorem capture_strips_password_witness:
  "(\<exists>snap. collectUserData targetId homeWorld = (Inr snap, homeWorld)
      \<and> map_of (data_user (data snap)) ''password'' = None)
   \<and> collectUserData targetId emptyWorld = (Inl (Error ''User not found''), emptyWorld)"
proof -
  note th = capture_strips_password [OF targetId_valid]
  have h: "faults homeWorld = []"
    "list_ex (matches [([''_id''], JObjectId 3)]) (colls homeWorld Users)"
    by (simp_all add: homeWorld_def busyWorld_def matches_def fieldMatches_def)
  have e: "faults emptyWorld = []"
    "\<not> list_ex (matches [([''_id''], JObjectId 3)]) (colls emptyWorld Users)"
    by (simp_all add: emptyWorld_def)
  from th [of homeWorld] h th [of emptyWorld] e show ?thesis by simp
qed

text \<open>
  Claim C8. Every snapshot that \<^verbatim>\<open>collectUserData\<close> returns has header counts
  equal to the sizes of its payload collections, the preferences count being 1 when a
  preferences record is present and 0 otherwise. (It returns one for every well-formed
  owner with a profile in a store that does not fail.)
\<close>

theorem capture_counts_match:
  "(\<forall>snap w'. collectUserData uid w = (Inr snap, w') \<longrightarrow> countsMatch snap)
   \<and> (\<forall>i. newObjectIdFrom uid = Inr i \<and> faults w = []
          \<and> list_ex (matches [([''_id''], JObjectId i)]) (colls w Users) \<longrightarrow>
          (\<exists>snap. collectUserData uid w = (Inr snap, w) \<and> countsMatch snap))"
proof (intro conjI allI impI)
  fix snap w'
  assume "collectUserData uid w = (Inr snap, w')"
  then show "countsMatch snap" by (rule collect_returns(2))
next
  fix i
  assume a: "newObjectIdFrom uid = Inr i \<and> faults w = []
          \<and> list_ex (matches [([''_id''], JObjectId i)]) (colls w Users)"
  then obtain user where "find (matches [([''_id''], JObjectId i)]) (colls w Users) = Some user"
    by (cases "find (matches [([''_id''], JObjectId i)]) (colls w Users)")
      (auto simp: find_None_iff list_ex_iff)
  then obtain snap where "collectUserData uid w = (Inr snap, w)"
    using collect_no_faults [of w uid i] a by auto
  then show "\<exists>snap. collectUserData uid w = (Inr snap, w) \<and> countsMatch snap"
    using collect_returns(2) by blast
qed

theorem capture_counts_match_witness:
  "\<exists>snap. collectUserData targetId homeWorld = (Inr snap, homeWorld) \<and> countsMatch snap
     \<and> dataCounts (metadata snap) = zeroCounts\<lparr>clients := 2, defaults := 1\<rparr>"
proof -
  have "newObjectIdFrom targetId = Inr 3 \<and> faults homeWorld = []
      \<and> list_ex (matches [([''_id''], JObjectId 3)]) (colls homeWorld Users)"
    by (simp add: targetId_valid homeWorld_def busyWorld_def matches_def fieldMatches_def)
  then obtain snap where s: "collectUserData targetId homeWorld = (Inr snap, homeWorld)"
    and c: "countsMatch snap"
    using capture_counts_match [of targetId homeWorld] by blast
  have "dataCounts (metadata (projr (fst (collectUserData targetId homeWorld))))
      = zeroCounts\<lparr>clients := 2, defaults := 1\<rparr>"
    by code_simp
  then show ?thesis using s c by auto
qed

section \<open>The round trip through a backup file\<close>

















section \<open>The retention sweep\<close>

lemma lookupFile_filter_other:
  "m \<noteq> n \<Longrightarrow> lookupFile m (filter (\<lambda>g. fname g \<noteq> n) fs) = lookupFile m fs"
  by (induction fs) (auto simp: lookupFile_def)

lemma deleteBackupFile_effect:
  "deleteBackupFile n fs =
     (if removableIn fs n then (Inr (), filter (\<lambda>g. fname g \<noteq> n) fs)
      else (Inl (Error ''Failed to delete backup file''), fs))"
  by (simp add: deleteBackupFile_def removableIn_def split: option.splits)

lemma deleteAll_effect:
  "distinct (map filename bs) \<Longrightarrow>
   deleteAll bs c fs =
     (c + length (filter (\<lambda>b. removableIn fs (filename b)) bs),
      filter (\<lambda>f. \<not> (fname f \<in> filename ` set bs \<and> removableIn fs (fname f))) fs)"
proof (induction bs arbitrary: c fs)
  case Nil
  then show ?case by simp
next
  case (Cons b bs)
  have d: "distinct (map filename bs)" and nb: "filename b \<notin> filename ` set bs"
    using Cons.prems by auto
  show ?case
  proof (cases "removableIn fs (filename b)")
    case False
    have "filter (\<lambda>f. \<not> (fname f \<in> filename ` set (b # bs) \<and> removableIn fs (fname f))) fs
        = filter (\<lambda>f. \<not> (fname f \<in> filename ` set bs \<and> removableIn fs (fname f))) fs"
      using False by (intro filter_cong) auto
    then show ?thesis using False Cons.IH [OF d, of c fs] by (simp add: deleteBackupFile_effect)
  next
    case True
    define fs1 where "fs1 = filter (\<lambda>g. fname g \<noteq> filename b) fs"
    have same: "\<And>m. m \<noteq> filename b \<Longrightarrow> removableIn fs1 m = removableIn fs m"
      by (simp add: removableIn_def fs1_def lookupFile_filter_other)
    have ne: "\<And>x. x \<in> set bs \<Longrightarrow> filename x \<noteq> filename b"
      using nb by (metis image_eqI)
    have cnt: "filter (\<lambda>x. removableIn fs1 (filename x)) bs
        = filter (\<lambda>x. removableIn fs (filename x)) bs"
      by (intro filter_cong) (simp_all add: same ne)
    have rest: "filter (\<lambda>f. \<not> (fname f \<in> filename ` set bs \<and> removableIn fs1 (fname f))) fs1
        = filter (\<lambda>f. \<not> (fname f \<in> filename ` set (b # bs) \<and> removableIn fs (fname f))) fs"
      unfolding fs1_def filter_filter using True ne
      by (intro filter_cong) (auto simp: same [unfolded fs1_def])
    show ?thesis
      using True Cons.IH [OF d, of "Suc c" fs1] cnt rest
      by (simp add: deleteBackupFile_effect fs1_def)
  qed
qed

lemma filename_entryOf: "filename (entryOf fs f) = fname f"
  by (simp add: entryOf_def split: sum.splits)

lemma lookupFile_distinct:
  "distinct (map fname fs) \<Longrightarrow> f \<in> set fs \<Longrightarrow> lookupFile (fname f) fs = Some f"
  by (induction fs) (auto simp: lookupFile_def)

lemma lookupFile_filter_keep:
  "distinct (map fname fs) \<Longrightarrow> f \<in> set fs \<Longrightarrow> P f \<Longrightarrow>
   lookupFile (fname f) (filter P fs) = Some f"
proof (rule lookupFile_distinct)
  show "distinct (map fname (filter P fs))" if "distinct (map fname fs)"
    using that by (rule distinct_map_filter)
qed auto

lemma entryOf_filter:
  assumes "distinct (map fname fs)" "f \<in> set fs" "P f"
  shows "entryOf (filter P fs) f = entryOf fs f"
proof -
  have "lookupFile (fname f) fs = Some f" using assms(1,2) by (rule lookupFile_distinct)
  moreover have "lookupFile (fname f) (filter P fs) = Some f"
    using assms by (rule lookupFile_filter_keep)
  ultimately show ?thesis by (simp add: entryOf_def readBackupFile_def)
qed

lemma distinct_map_sort_key:
  "distinct (map g (sort_key k xs)) = distinct (map g xs)"
  by (simp add: distinct_map)

lemma listing_names:
  "map filename (map (entryOf fs) xs) = map fname xs"
  by (simp add: filename_entryOf)

lemma listing_distinct:
  assumes "distinct (map fname fs)"
  shows "distinct (map filename (listUserBackups getTime uid fs))"
  unfolding listUserBackups_def distinct_map_sort_key listing_names
  using assms by (simp add: distinct_map_filter)

lemma keep_prefix:
  assumes "distinct (map g xs)"
  shows "filter (\<lambda>b. g b \<notin> g ` set (drop k xs)) xs = take k xs"
proof -
  have d: "distinct (map g (take k xs @ drop k xs))" using assms by simp
  then have "set (map g (take k xs)) \<inter> set (map g (drop k xs)) = {}"
    by (simp only: map_append distinct_append)
  then have disj: "g ` set (take k xs) \<inter> g ` set (drop k xs) = {}" by simp
  have "filter (\<lambda>b. g b \<notin> g ` set (drop k xs)) (take k xs @ drop k xs)
      = take k xs @ []"
    unfolding filter_append using disj
    by (intro arg_cong2 [where f = "(@)"]) (auto simp: filter_id_conv filter_empty_conv)
  then show ?thesis by simp
qed

lemma filter_rotate:
  "filter A (filter B (filter C xs)) = filter C (filter A (filter B xs))"
  by (induction xs) auto

lemma listing_after_sweep:
  assumes d: "distinct (map fname fs)"
  shows "listUserBackups getTime uid
           (filter (\<lambda>f. fname f \<notin> filename ` set (drop k (listUserBackups getTime uid fs))) fs)
         = take k (listUserBackups getTime uid fs)"
proof -
  define L where "L = listUserBackups getTime uid fs"
  define D where "D = filename ` set (drop k L)"
  define mine where "mine = filter (\<lambda>f. prefix (fileUserIdOf (fname f)) uid)
      (filter (\<lambda>f. isBackupName (fname f)) fs)"
  define key :: "backupMetadata \<Rightarrow> int"
    where "key = (\<lambda>b. - getTime (entry_backupDate b))"
  have L: "L = sort_key key (map (entryOf fs) mine)"
    by (simp add: L_def listUserBackups_def mine_def key_def)
  have sub: "set mine \<subseteq> set fs" by (auto simp: mine_def)
  have "listUserBackups getTime uid (filter (\<lambda>f. fname f \<notin> D) fs)
      = sort_key key (map (entryOf (filter (\<lambda>f. fname f \<notin> D) fs))
          (filter (\<lambda>f. fname f \<notin> D) mine))"
    unfolding listUserBackups_def mine_def key_def filter_rotate ..
  also have "map (entryOf (filter (\<lambda>f. fname f \<notin> D) fs)) (filter (\<lambda>f. fname f \<notin> D) mine)
      = map (entryOf fs) (filter (\<lambda>f. fname f \<notin> D) mine)"
    using d sub by (intro map_cong refl entryOf_filter) auto
  also have "\<dots> = filter (\<lambda>b. filename b \<notin> D) (map (entryOf fs) mine)"
    by (simp add: filter_map comp_def filename_entryOf)
  also have "sort_key key \<dots> = filter (\<lambda>b. filename b \<notin> D) L"
    by (simp add: L filter_sort)
  also have "\<dots> = take k L"
    unfolding D_def using listing_distinct [OF d, of getTime uid]
    by (simp add: L_def keep_prefix)
  finally show ?thesis by (simp add: L_def D_def)
qed

lemma listing_newest_first:
  assumes "a \<in> set (take k (listUserBackups getTime uid fs))"
    and "b \<in> set (drop k (listUserBackups getTime uid fs))"
  shows "getTime (entry_backupDate b) \<le> getTime (entry_backupDate a)"
proof -
  define L where "L = listUserBackups getTime uid fs"
  have "sorted (map (\<lambda>b. - getTime (entry_backupDate b)) L)"
    by (simp add: L_def listUserBackups_def)
  then have "sorted (map (\<lambda>b. - getTime (entry_backupDate b)) (take k L)
      @ map (\<lambda>b. - getTime (entry_backupDate b)) (drop k L))"
    by (simp flip: map_append)
  then show ?thesis using assms unfolding L_def [symmetric] by (auto simp: sorted_append)
qed

lemma removed_count:
  assumes d: "distinct (map fname fs)" and dD: "distinct (map g bs)"
    and sub: "g ` set bs \<subseteq> fname ` set fs"
  shows "length (filter (\<lambda>f. fname f \<notin> g ` set bs) fs) + length bs = length fs"
proof -
  have dist: "distinct (filter (\<lambda>n. n \<in> g ` set bs) (map fname fs))"
    using d by (rule distinct_filter)
  have "length (filter (\<lambda>f. fname f \<in> g ` set bs) fs)
      = length (filter (\<lambda>n. n \<in> g ` set bs) (map fname fs))"
    by (simp add: filter_map comp_def)
  also have "\<dots> = card (set (filter (\<lambda>n. n \<in> g ` set bs) (map fname fs)))"
    by (rule distinct_card [OF dist, symmetric])
  also have "set (filter (\<lambda>n. n \<in> g ` set bs) (map fname fs)) = g ` set bs"
    using sub by auto
  also have "card (g ` set bs) = length bs"
    using dD by (metis distinct_card length_map set_map)
  finally have "length (filter (\<lambda>f. fname f \<in> g ` set bs) fs) = length bs" .
  moreover have "length (filter (\<lambda>f. fname f \<notin> g ` set bs) fs)
      + length (filter (\<lambda>f. fname f \<in> g ` set bs) fs) = length fs"
    using sum_length_filter_compl [of "\<lambda>f. fname f \<notin> g ` set bs" fs] by (simp add: comp_def)
  ultimately show ?thesis by simp
qed

lemma listing_from_directory:
  "filename ` set (listUserBackups getTime uid fs) \<subseteq> fname ` set fs"
  by (auto simp: listUserBackups_def filename_entryOf)

text \<open>
  Claim C6. The directory holds each name once and \<^verbatim>\<open>keepCount\<close> \<open>k\<close> is not
  negative; \<open>L\<close> is the list of the owner's archives, newest first, and \<open>n\<close> its
  length. If \<open>n \<le> k\<close> the sweep returns 0 and deletes nothing. If \<open>n > k\<close> it tries
  every entry beyond the first \<open>k\<close>: it removes exactly those whose file can be
  removed and returns their number, so a failure does not stop the sweep. When they can
  all be removed it returns \<open>n - k\<close>, the directory has \<open>n - k\<close> files less, and the
  owner's list afterwards is the first \<open>k\<close> entries of \<open>L\<close>. No entry that is kept is
  older than an entry beyond the first \<open>k\<close>.
\<close>

theorem cleanup_keeps_newest:
  assumes d: "distinct (map fname fs)" and k: "0 \<le> k"
  shows "(int (length (listUserBackups getTime uid fs)) \<le> k \<longrightarrow>
            cleanupOldBackups getTime uid k fs = (0, fs))
     \<and> (k < int (length (listUserBackups getTime uid fs)) \<longrightarrow>
           cleanupOldBackups getTime uid k fs =
             (length (filter (\<lambda>b. removableIn fs (filename b))
                        (drop (nat k) (listUserBackups getTime uid fs))),
              filter (\<lambda>f. \<not> (fname f \<in> filename ` set (drop (nat k) (listUserBackups getTime uid fs))
                              \<and> removableIn fs (fname f))) fs)
         \<and> (list_all (\<lambda>b. removableIn fs (filename b))
                (drop (nat k) (listUserBackups getTime uid fs)) \<longrightarrow>
              (\<exists>fs'. cleanupOldBackups getTime uid k fs
                        = (length (listUserBackups getTime uid fs) - nat k, fs')
                 \<and> length fs' + (length (listUserBackups getTime uid fs) - nat k) = length fs
                 \<and> listUserBackups getTime uid fs'
                     = take (nat k) (listUserBackups getTime uid fs))))
     \<and> (\<forall>a\<in>set (take (nat k) (listUserBackups getTime uid fs)).
          \<forall>b\<in>set (drop (nat k) (listUserBackups getTime uid fs)).
            getTime (entry_backupDate b) \<le> getTime (entry_backupDate a))"
proof -
  define L where "L = listUserBackups getTime uid fs"
  define D where "D = drop (nat k) L"
  have dL: "distinct (map filename L)" unfolding L_def using d by (rule listing_distinct)
  then have dD: "distinct (map filename D)" by (simp add: D_def distinct_drop flip: drop_map)
  have sl: "slice k L = D" using k by (simp add: slice_def D_def)
  have few: "cleanupOldBackups getTime uid k fs = (0, fs)" if "int (length L) \<le> k"
    using that by (simp add: cleanupOldBackups_def L_def)
  have many: "cleanupOldBackups getTime uid k fs =
      (length (filter (\<lambda>b. removableIn fs (filename b)) D),
       filter (\<lambda>f. \<not> (fname f \<in> filename ` set D \<and> removableIn fs (fname f))) fs)"
    if "k < int (length L)"
    using that deleteAll_effect [OF dD, of 0 fs]
    by (simp add: cleanupOldBackups_def L_def [symmetric] sl)
  have all: "\<exists>fs'. cleanupOldBackups getTime uid k fs = (length L - nat k, fs')
       \<and> length fs' + (length L - nat k) = length fs
       \<and> listUserBackups getTime uid fs' = take (nat k) L"
    if gt: "k < int (length L)" and rm: "list_all (\<lambda>b. removableIn fs (filename b)) D"
  proof -
    have c: "filter (\<lambda>b. removableIn fs (filename b)) D = D"
      using rm by (simp add: filter_id_conv list_all_iff)
    have f: "filter (\<lambda>f. \<not> (fname f \<in> filename ` set D \<and> removableIn fs (fname f))) fs
        = filter (\<lambda>f. fname f \<notin> filename ` set D) fs"
      using rm by (intro filter_cong) (auto simp: list_all_iff)
    have subD: "filename ` set D \<subseteq> fname ` set fs"
      using listing_from_directory [of getTime uid fs] set_drop_subset [of "nat k" L]
      unfolding D_def L_def by blast
    have len: "length (filter (\<lambda>f. fname f \<notin> filename ` set D) fs) + length D = length fs"
      using d dD subD by (rule removed_count)
    have lst: "listUserBackups getTime uid (filter (\<lambda>f. fname f \<notin> filename ` set D) fs)
        = take (nat k) L"
      unfolding D_def L_def using d by (rule listing_after_sweep)
    show ?thesis using many [OF gt] c f len lst by (simp add: D_def)
  qed
  have order: "\<forall>a\<in>set (take (nat k) L). \<forall>b\<in>set D.
      getTime (entry_backupDate b) \<le> getTime (entry_backupDate a)"
    unfolding D_def L_def using listing_newest_first by blast
  show ?thesis
    using few many all order unfolding L_def [symmetric] D_def [symmetric] by blast
qed

theorem cleanup_keeps_newest_witness:
  "\<exists>fs'. cleanupOldBackups exampleTime targetId 1 exampleDir = (2, fs')
     \<and> length fs' + 2 = length exampleDir
     \<and> map filename (listUserBackups exampleTime targetId fs') = [fname marchFile]"
proof -
  have d: "distinct (map fname exampleDir)" by code_simp
  have k: "(0::int) \<le> 1" by simp
  have n: "length (listUserBackups exampleTime targetId exampleDir) = 3" by code_simp
  have rm: "list_all (\<lambda>b. removableIn exampleDir (filename b))
      (drop (nat 1) (listUserBackups exampleTime targetId exampleDir))"
    by code_simp
  have first: "map filename (take (nat 1) (listUserBackups exampleTime targetId exampleDir))
      = [fname marchFile]"
    by code_simp
  have gt: "1 < int (length (listUserBackups exampleTime targetId exampleDir))"
    using n by simp
  obtain fs' where
    "cleanupOldBackups exampleTime targetId 1 exampleDir
       = (length (listUserBackups exampleTime targetId exampleDir) - nat 1, fs')"
    and "length fs' + (length (listUserBackups exampleTime targetId exampleDir) - nat 1)
       = length exampleDir"
    and "listUserBackups exampleTime targetId fs'
       = take (nat 1) (listUserBackups exampleTime targetId exampleDir)"
    using cleanup_keeps_newest [OF d k, of exampleTime targetId] gt rm by blast
  then show ?thesis using n first by auto
qed

end
